theory Spec2Isabelle
  imports Main "HOL-Library.AList" "HOL-Library.Sublist" "HOL-Library.Multiset"
begin

section \<open>JavaScript values\<close>

text \<open>
  The payloads of the sync engine are plain JavaScript objects. A value is one of the
  following. Instants are milliseconds since the epoch. \<open>JIso t\<close> is the string that
  \<open>Date.prototype.toISOString\<close> yields for the instant \<open>t\<close>, which \<open>new Date\<close> parses
  back to \<open>t\<close>; \<open>JStr\<close> holds a string that is no date text. \<open>JDate t\<close> is a native
  \<open>Date\<close> object, \<open>JInvalidDate\<close> the \<open>Date\<close> whose time value is NaN; the instant of a
  \<open>JDate\<close> or \<open>JIso\<close> lies within the range of a date. An object is the list of its own
  enumerable properties in insertion order; its property names are distinct and are
  not array indices (those are the positions of a \<open>JArr\<close>). An \<open>undefined\<close> element of an array is an
  element that is present and holds \<open>undefined\<close>.
\<close>

datatype jsval =
    JUndefined
  | JNull
  | JBool bool
  | JNum int
  | JStr string
  | JIso int
  | JDate int
  | JInvalidDate
  | JArr "jsval list"
  | JObj "(string \<times> jsval) list"

type_synonym props = "(string \<times> jsval) list"

text \<open>Property read \<open>o.k\<close> (a missing property reads as \<open>undefined\<close>) and the
  property write of an object spread \<open>{...o, k: v}\<close>.\<close>

definition get_prop :: "props \<Rightarrow> string \<Rightarrow> jsval" where
  "get_prop ps k = (case map_of ps k of None \<Rightarrow> JUndefined | Some v \<Rightarrow> v)"

definition set_prop :: "string \<Rightarrow> jsval \<Rightarrow> props \<Rightarrow> props" where
  "set_prop k v ps = AList.update k v ps"

text \<open>The condition of \<open>v ? a : b\<close>.\<close>

fun truthy :: "jsval \<Rightarrow> bool" where
  "truthy JUndefined = False"
| "truthy JNull = False"
| "truthy (JBool b) = b"
| "truthy (JNum n) = (n \<noteq> 0)"
| "truthy (JStr s) = (s \<noteq> [])"
| "truthy _ = True"

text \<open>\<open>new Date(v)\<close>: a date is copied, an ISO-8601 string is parsed to its instant, a
  number is taken as the time value when it lies within the range of a date
  (8.64e15 milliseconds either side of the epoch), \<open>null\<close> converts to 0; a number out
  of range, \<open>undefined\<close> and a string that is no date text give the invalid date.\<close>

definition max_time :: int where
  "max_time = 8640000000000000"

fun new_Date :: "jsval \<Rightarrow> jsval" where
  "new_Date (JDate t) = JDate t"
| "new_Date (JIso t) = JDate t"
| "new_Date (JNum n) = (if - max_time \<le> n \<and> n \<le> max_time then JDate n else JInvalidDate)"
| "new_Date JNull = JDate 0"
| "new_Date (JBool b) = JDate (if b then 1 else 0)"
| "new_Date _ = JInvalidDate"

datatype error =
    QuotaExceededError
  | SyntaxError
  | RangeError
  | RemoteUnavailable
  | InvalidArgument
  | Unauthorized
  | Offline
  | NotFoundError
  | ConstraintError
  | VersionError

text \<open>\<open>d.toISOString()\<close> throws a RangeError on the invalid date.\<close>

fun toISOString :: "jsval \<Rightarrow> error + jsval" where
  "toISOString (JDate t) = Inr (JIso t)"
| "toISOString _ = Inl RangeError"

subsection \<open>JSON\<close>

text \<open>
  \<open>toJSON v\<close> is the value \<open>JSON.parse(JSON.stringify(v))\<close>: a date becomes its ISO-8601
  string (\<open>Date.prototype.toJSON\<close>), the invalid date becomes \<open>null\<close>, a property whose
  value is \<open>undefined\<close> is left out and an \<open>undefined\<close> array element becomes \<open>null\<close>.
\<close>

fun toJSON :: "jsval \<Rightarrow> jsval"
  and toJSON_elems :: "jsval list \<Rightarrow> jsval list"
  and toJSON_props :: "props \<Rightarrow> props" where
  "toJSON (JDate t) = JIso t"
| "toJSON JInvalidDate = JNull"
| "toJSON (JArr vs) = JArr (toJSON_elems vs)"
| "toJSON (JObj ps) = JObj (toJSON_props ps)"
| "toJSON JUndefined = JUndefined"
| "toJSON JNull = JNull"
| "toJSON (JBool b) = JBool b"
| "toJSON (JNum n) = JNum n"
| "toJSON (JStr s) = JStr s"
| "toJSON (JIso t) = JIso t"
| "toJSON_elems [] = []"
| "toJSON_elems (v # vs) = (if v = JUndefined then JNull else toJSON v) # toJSON_elems vs"
| "toJSON_props [] = []"
| "toJSON_props ((k, v) # ps) =
     (if v = JUndefined then toJSON_props ps else (k, toJSON v) # toJSON_props ps)"

text \<open>A string held by \<open>localStorage\<close> is either the text of a JSON document or some
  other text, which \<open>JSON.parse\<close> rejects.\<close>

datatype stored_text = Json jsval | Plain string

definition JSON_stringify :: "jsval \<Rightarrow> stored_text" where
  "JSON_stringify v = Json (toJSON v)"

fun JSON_parse :: "stored_text \<Rightarrow> error + jsval" where
  "JSON_parse (Json v) = Inr v"
| "JSON_parse (Plain s) = Inl SyntaxError"

fun text_truthy :: "stored_text \<Rightarrow> bool" where
  "text_truthy (Plain s) = (s \<noteq> [])"
| "text_truthy (Json v) = True"

section \<open>Records and sync operations\<close>

text \<open>A domain record is an object with a string \<open>id\<close> (every record type declares
  \<open>id: string\<close>; the payload of a delete is \<open>{id}\<close>) and its other properties. An id is
  not empty and contains no \<open>/\<close>, as the UUIDs that the program generates.\<close>

record entity =
  eid :: string
  eprops :: props

definition entity_prop :: "entity \<Rightarrow> string \<Rightarrow> jsval" where
  "entity_prop e k = (if k = ''id'' then JStr (eid e) else get_prop (eprops e) k)"

definition entity_set :: "string \<Rightarrow> jsval \<Rightarrow> entity \<Rightarrow> entity" where
  "entity_set k v e = e\<lparr>eprops := set_prop k v (eprops e)\<rparr>"

definition entity_to_val :: "entity \<Rightarrow> jsval" where
  "entity_to_val e = JObj ((''id'', JStr (eid e)) # eprops e)"

fun as_string :: "jsval \<Rightarrow> string option" where
  "as_string (JStr s) = Some s"
| "as_string _ = None"

definition entity_of_val :: "jsval \<Rightarrow> entity option" where
  "entity_of_val v =
     (case v of
        JObj ps \<Rightarrow>
          (case as_string (get_prop ps ''id'') of
             Some i \<Rightarrow> Some \<lparr>eid = i, eprops = filter (\<lambda>p. fst p \<noteq> ''id'') ps\<rparr>
           | None \<Rightarrow> None)
      | _ \<Rightarrow> None)"

datatype optype = Create | Update | Delete

record SyncOperation =
  op_id :: string
  op_type :: optype
  store :: string
  data :: entity
  timestamp :: jsval
  op_deviceId :: string

fun optype_text :: "optype \<Rightarrow> string" where
  "optype_text Create = ''create''"
| "optype_text Update = ''update''"
| "optype_text Delete = ''delete''"

definition optype_of_text :: "string \<Rightarrow> optype option" where
  "optype_of_text s =
     (if s = ''create'' then Some Create
      else if s = ''update'' then Some Update
      else if s = ''delete'' then Some Delete
      else None)"

definition op_to_val :: "SyncOperation \<Rightarrow> jsval" where
  "op_to_val x = JObj
     [(''type'', JStr (optype_text (op_type x))),
      (''store'', JStr (store x)),
      (''data'', entity_to_val (data x)),
      (''id'', JStr (op_id x)),
      (''timestamp'', timestamp x),
      (''deviceId'', JStr (op_deviceId x))]"

definition op_of_val :: "jsval \<Rightarrow> SyncOperation option" where
  "op_of_val v =
     (case v of
        JObj ps \<Rightarrow>
          (case (as_string (get_prop ps ''type''), as_string (get_prop ps ''store''),
                 as_string (get_prop ps ''id''), as_string (get_prop ps ''deviceId'')) of
             (Some ty, Some st, Some i, Some dev) \<Rightarrow>
               (case (optype_of_text ty, entity_of_val (get_prop ps ''data'')) of
                  (Some t, Some d) \<Rightarrow>
                    Some \<lparr>op_id = i, op_type = t, store = st, data = d,
                          timestamp = get_prop ps ''timestamp'', op_deviceId = dev\<rparr>
                | _ \<Rightarrow> None)
           | _ \<Rightarrow> None)
      | _ \<Rightarrow> None)"

fun ops_of_vals :: "jsval list \<Rightarrow> SyncOperation list option" where
  "ops_of_vals [] = Some []"
| "ops_of_vals (v # vs) =
     (case (op_of_val v, ops_of_vals vs) of
        (Some x, Some xs) \<Rightarrow> Some (x # xs)
      | _ \<Rightarrow> None)"

definition queue_of_val :: "jsval \<Rightarrow> SyncOperation list option" where
  "queue_of_val v = (case v of JArr vs \<Rightarrow> ops_of_vals vs | _ \<Rightarrow> None)"

section \<open>The sync service\<close>

text \<open>
  The environment decides what the program cannot: whether the \<open>n\<close>-th call to the
  remote database resolves or rejects, and whether \<open>localStorage.setItem\<close> accepts a
  value or throws for lack of space. The remote database applies the calls it
  accepts in the order in which they are made.
\<close>

record env =
  remote_ok :: "nat \<Rightarrow> bool"
  storage_ok :: "string \<Rightarrow> stored_text \<Rightarrow> bool"

text \<open>A call that the remote database has applied: \<open>set\<close> of a node at
  \<open>store/id\<close>, \<open>remove\<close> of that node, \<open>set\<close> of a whole collection, or \<open>set\<close> of the
  node \<open>sync_metadata/deviceId\<close>.\<close>

datatype remote_call =
    RSet string entity
  | RRemove string string
  | RSetStore string "entity list"
  | RSetMeta string props

text \<open>
  The state of \<open>FirebaseSyncService\<close> together with what it acts on: its fields
  \<open>deviceId\<close>, \<open>isOnline\<close>, \<open>syncQueue\<close> (and \<open>retryAttempts\<close>, which only the variant
  with a retry counter reads), the browser's \<open>localStorage\<close>, the remote database (for
  each collection path the child nodes, each stored under its \<open>id\<close>), the calls the
  remote database has applied so far, in order, and the number of calls issued to it.
\<close>

record sync_state =
  deviceId :: string
  isOnline :: bool
  syncQueue :: "SyncOperation list"
  retryAttempts :: nat
  localStorage :: "string \<rightharpoonup> stored_text"
  rtdb :: "string \<Rightarrow> entity list"
  applied :: "remote_call list"
  issued :: nat

definition setItem :: "env \<Rightarrow> string \<Rightarrow> stored_text \<Rightarrow> sync_state \<Rightarrow> error option \<times> sync_state" where
  "setItem E k v s =
     (if storage_ok E k v then (None, s\<lparr>localStorage := (localStorage s)(k \<mapsto> v)\<rparr>)
      else (Some QuotaExceededError, s))"

definition queue_text :: "SyncOperation list \<Rightarrow> stored_text" where
  "queue_text q = JSON_stringify (JArr (map op_to_val q))"

definition saveSyncQueue :: "env \<Rightarrow> sync_state \<Rightarrow> error option \<times> sync_state" where
  "saveSyncQueue E s = setItem E ''arkive-sync-queue'' (queue_text (syncQueue s)) s"

text \<open>
  \<open>loadSyncQueue\<close> installs whatever \<open>JSON.parse\<close> returns. The result is \<open>None\<close> when
  the stored document is not an array of sync operations: the source then holds a
  value outside \<open>SyncOperation[]\<close>, which the typed queue here cannot represent.
\<close>

definition loadSyncQueue :: "sync_state \<Rightarrow> sync_state option" where
  "loadSyncQueue s =
     (case localStorage s ''arkive-sync-queue'' of
        None \<Rightarrow> Some s
      | Some savedQueue \<Rightarrow>
          if \<not> text_truthy savedQueue then Some s
          else (case JSON_parse savedQueue of
                  Inl e \<Rightarrow> Some (s\<lparr>syncQueue := []\<rparr>)
                | Inr v \<Rightarrow>
                    (case queue_of_val v of
                       Some q \<Rightarrow> Some (s\<lparr>syncQueue := q\<rparr>)
                     | None \<Rightarrow> None)))"

subsection \<open>The remote database\<close>

text \<open>
  What the database SDK does with a value given to \<open>set\<close>. Validation throws when the
  value holds \<open>undefined\<close> anywhere, or a property name that is empty or contains one of
  \<open>. # $ / [ ]\<close> or a control character. The node is then built from the value's own
  enumerable properties: a string, a number or a boolean is a leaf; \<open>null\<close> gives no
  node, and neither does a \<open>Date\<close>, which has no enumerable property; an object or an
  array gives a node for each property or element that gives one, and no node if
  there is none. \<open>sdk_val v\<close> is what a later read returns for the node built from \<open>v\<close>,
  \<open>null\<close> when there is none: an array comes back as an array, with holes (which read
  as \<open>undefined\<close>) for the elements that gave no node, unless fewer than half of the
  positions up to its last node are filled; then it comes back as an object keyed by
  the positions. Values are taken to be within the limits of the SDK on the length of
  a path (768 bytes), the depth of nesting (32) and the size of a leaf (10 MB).
\<close>

definition valid_key_name :: "string \<Rightarrow> bool" where
  "valid_key_name k =
     (k \<noteq> [] \<and>
      list_all (\<lambda>c. c \<notin> set ''.#$/[]'' \<and> 32 \<le> (of_char c :: nat) \<and> (of_char c :: nat) \<noteq> 127) k)"

fun sdk_accepts :: "jsval \<Rightarrow> bool"
  and sdk_accepts_elems :: "jsval list \<Rightarrow> bool"
  and sdk_accepts_props :: "props \<Rightarrow> bool" where
  "sdk_accepts JUndefined = False"
| "sdk_accepts (JArr vs) = sdk_accepts_elems vs"
| "sdk_accepts (JObj ps) = sdk_accepts_props ps"
| "sdk_accepts JNull = True"
| "sdk_accepts (JBool b) = True"
| "sdk_accepts (JNum n) = True"
| "sdk_accepts (JStr s) = True"
| "sdk_accepts (JIso t) = True"
| "sdk_accepts (JDate t) = True"
| "sdk_accepts JInvalidDate = True"
| "sdk_accepts_elems [] = True"
| "sdk_accepts_elems (v # vs) = (sdk_accepts v \<and> sdk_accepts_elems vs)"
| "sdk_accepts_props [] = True"
| "sdk_accepts_props ((k, v) # ps) = (valid_key_name k \<and> sdk_accepts v \<and> sdk_accepts_props ps)"

function decimal :: "nat \<Rightarrow> string" where
  "decimal n =
     (if n < 10 then [char_of (48 + n)] else decimal (n div 10) @ [char_of (48 + n mod 10)])"
  by pat_completeness auto
termination
  by (relation "measure id") auto

definition array_val :: "jsval list \<Rightarrow> jsval" where
  "array_val ws =
     (let present = filter (\<lambda>i. ws ! i \<noteq> JNull) [0..<length ws]
      in if present = [] then JNull
         else if last present < 2 * length present
           then JArr (map (\<lambda>w. if w = JNull then JUndefined else w) (take (Suc (last present)) ws))
           else JObj (map (\<lambda>i. (decimal i, ws ! i)) present))"

fun sdk_val :: "jsval \<Rightarrow> jsval"
  and sdk_elems :: "jsval list \<Rightarrow> jsval list"
  and sdk_props :: "props \<Rightarrow> props" where
  "sdk_val (JDate t) = JNull"
| "sdk_val JInvalidDate = JNull"
| "sdk_val JUndefined = JNull"
| "sdk_val JNull = JNull"
| "sdk_val (JBool b) = JBool b"
| "sdk_val (JNum n) = JNum n"
| "sdk_val (JStr s) = JStr s"
| "sdk_val (JIso t) = JIso t"
| "sdk_val (JArr vs) = array_val (sdk_elems vs)"
| "sdk_val (JObj ps) = (case sdk_props ps of [] \<Rightarrow> JNull | q # qs \<Rightarrow> JObj (q # qs))"
| "sdk_elems [] = []"
| "sdk_elems (v # vs) = sdk_val v # sdk_elems vs"
| "sdk_props [] = []"
| "sdk_props ((k, v) # ps) =
     (if sdk_val v = JNull then sdk_props ps else (k, sdk_val v) # sdk_props ps)"

definition sdk_entity :: "entity \<Rightarrow> entity" where
  "sdk_entity e = e\<lparr>eprops := sdk_props (eprops e)\<rparr>"

text \<open>\<open>ref(rtdb, path)\<close> throws when the path holds one of \<open>. # $ [ ]\<close> or a control
  character.\<close>

definition valid_path :: "string \<Rightarrow> bool" where
  "valid_path p =
     list_all (\<lambda>c. c \<notin> set ''.#$[]'' \<and> 32 \<le> (of_char c :: nat) \<and> (of_char c :: nat) \<noteq> 127) p"

text \<open>
  The remote database holds, for each collection, the nodes under it, each with its
  properties as a read returns them; the order of the list carries no meaning.
  \<open>set(ref(rtdb, store/id), value)\<close> throws before anything is sent when the SDK rejects
  the value; otherwise the call is made, and when it succeeds the node at that path is
  replaced. \<open>remove\<close> deletes the node. A call that fails changes nothing remotely.
\<close>

definition put_node :: "entity \<Rightarrow> entity list \<Rightarrow> entity list" where
  "put_node e ns =
     (if eid e \<in> set (map eid ns) then map (\<lambda>n. if eid n = eid e then e else n) ns
      else ns @ [e])"

definition remote_set :: "env \<Rightarrow> string \<Rightarrow> entity \<Rightarrow> sync_state \<Rightarrow> error option \<times> sync_state" where
  "remote_set E st e s =
     (if \<not> sdk_accepts_props (eprops e) then (Some InvalidArgument, s)
      else if remote_ok E (issued s)
      then (None, s\<lparr>rtdb := (rtdb s)(st := put_node (sdk_entity e) (rtdb s st)),
                     applied := applied s @ [RSet st (sdk_entity e)],
                     issued := Suc (issued s)\<rparr>)
      else (Some RemoteUnavailable, s\<lparr>issued := Suc (issued s)\<rparr>))"

definition remote_remove :: "env \<Rightarrow> string \<Rightarrow> string \<Rightarrow> sync_state \<Rightarrow> error option \<times> sync_state" where
  "remote_remove E st i s =
     (if remote_ok E (issued s)
      then (None, s\<lparr>rtdb := (rtdb s)(st := filter (\<lambda>n. eid n \<noteq> i) (rtdb s st)),
                     applied := applied s @ [RRemove st i],
                     issued := Suc (issued s)\<rparr>)
      else (Some RemoteUnavailable, s\<lparr>issued := Suc (issued s)\<rparr>))"

subsection \<open>services/firebaseSync.ts\<close>

definition syncToFirebase :: "env \<Rightarrow> SyncOperation \<Rightarrow> sync_state \<Rightarrow> error option \<times> sync_state" where
  "syncToFirebase E x s =
     (if \<not> valid_path (store x @ ''/'' @ eid (data x)) then (Some InvalidArgument, s)
      else case op_type x of
        Delete \<Rightarrow> remote_remove E (store x) (eid (data x)) s
      | _ \<Rightarrow>
          (case toISOString (new_Date (timestamp x)) of
             Inl e \<Rightarrow> (Some e, s)
           | Inr lm \<Rightarrow>
               remote_set E (store x)
                 (entity_set ''syncedBy'' (JStr (deviceId s))
                    (entity_set ''lastModified'' lm (data x))) s))"

text \<open>
  The \<open>for\<close> loop of \<open>processSyncQueue\<close>: an operation whose delivery throws is pushed
  onto \<open>this.syncQueue\<close>. \<open>drain_loop\<close>, and with it \<open>processSyncQueue\<close> and
  \<open>addToSyncQueue\<close>, describe a drain during which nothing else is handled; the loop
  suspends at each \<open>await\<close>, and the steps of a run in which other handlers come in
  between are given further down.
\<close>

fun drain_loop :: "env \<Rightarrow> SyncOperation list \<Rightarrow> sync_state \<Rightarrow> sync_state" where
  "drain_loop E [] s = s"
| "drain_loop E (x # xs) s =
     (case syncToFirebase E x s of
        (None, s') \<Rightarrow> drain_loop E xs s'
      | (Some e, s') \<Rightarrow> drain_loop E xs (s'\<lparr>syncQueue := syncQueue s' @ [x]\<rparr>))"

definition processSyncQueue :: "env \<Rightarrow> sync_state \<Rightarrow> error option \<times> sync_state" where
  "processSyncQueue E s =
     (if \<not> isOnline s \<or> length (syncQueue s) = 0 then (None, s)
      else saveSyncQueue E (drain_loop E (syncQueue s) (s\<lparr>syncQueue := []\<rparr>)))"

text \<open>\<open>addToSyncQueue(operation)\<close>; \<open>uuid\<close> is the result of \<open>crypto.randomUUID()\<close> and
  \<open>now\<close> the instant of \<open>new Date()\<close>. The first component of the result is the error
  the returned promise rejects with, if any.\<close>

definition addToSyncQueue ::
  "env \<Rightarrow> string \<Rightarrow> int \<Rightarrow> optype \<Rightarrow> string \<Rightarrow> entity \<Rightarrow> sync_state \<Rightarrow> error option \<times> sync_state" where
  "addToSyncQueue E uuid now ty st d s =
     (let syncOp = \<lparr>op_id = uuid, op_type = ty, store = st, data = d,
                     timestamp = JDate now, op_deviceId = deviceId s\<rparr>;
          s1 = s\<lparr>syncQueue := syncQueue s @ [syncOp]\<rparr>
      in case saveSyncQueue E s1 of
           (Some e, s2) \<Rightarrow> (Some e, s2)
         | (None, s2) \<Rightarrow> if isOnline s2 then processSyncQueue E s2 else (None, s2))"

text \<open>The handler of the browser's \<open>online\<close> event, and of \<open>offline\<close>.\<close>

definition on_online :: "env \<Rightarrow> sync_state \<Rightarrow> error option \<times> sync_state" where
  "on_online E s = processSyncQueue E (s\<lparr>isOnline := True\<rparr>)"

definition on_offline :: "sync_state \<Rightarrow> sync_state" where
  "on_offline s = s\<lparr>isOnline := False\<rparr>"

subsection \<open>Drains in flight\<close>

text \<open>
  No caller awaits \<open>processSyncQueue\<close>: the \<open>online\<close> handler just calls it, and the
  accessors of \<open>DatabaseService\<close> do not await \<open>addToSyncQueue\<close>. The loop suspends at
  every \<open>await this.syncToFirebase(operation)\<close>, with \<open>this.syncQueue\<close> already emptied,
  and there is no guard against a second drain, so other handlers run while a drain
  waits and several drains can be in flight at once. A drain in flight waits for the
  call of one operation to settle and has the rest of its copy of the queue still to
  go. The call is made, and applied remotely if it succeeds, when the loop reaches the
  operation; the loop learns the outcome when it resumes.
\<close>

record drain =
  awaiting :: SyncOperation
  outcome :: "error option"
  remaining :: "SyncOperation list"

record client =
  svc :: sync_state
  inflight :: "drain list"

text \<open>The loop reaches the rest \<open>xs\<close> of its queue: it delivers the next operation and
  suspends, or, at the end, saves the queue (nobody sees an error of that).\<close>

definition next_delivery :: "env \<Rightarrow> SyncOperation list \<Rightarrow> client \<Rightarrow> client" where
  "next_delivery E xs c =
     (case xs of
        [] \<Rightarrow> c\<lparr>svc := snd (saveSyncQueue E (svc c))\<rparr>
      | x # rest \<Rightarrow>
          (case syncToFirebase E x (svc c) of
             (r, s') \<Rightarrow>
               c\<lparr>svc := s',
                 inflight := inflight c @ [\<lparr>awaiting = x, outcome = r, remaining = rest\<rparr>]\<rparr>))"

text \<open>A call of \<open>processSyncQueue\<close> up to its first \<open>await\<close>.\<close>

definition begin_drain :: "env \<Rightarrow> client \<Rightarrow> client" where
  "begin_drain E c =
     (if \<not> isOnline (svc c) \<or> length (syncQueue (svc c)) = 0 then c
      else next_delivery E (syncQueue (svc c)) (c\<lparr>svc := (svc c)\<lparr>syncQueue := []\<rparr>\<rparr>))"

text \<open>The \<open>i\<close>-th drain in flight resumes: after a failure the operation is pushed onto
  \<open>this.syncQueue\<close> as it is at that moment; then the loop goes on.\<close>

definition settle :: "env \<Rightarrow> nat \<Rightarrow> client \<Rightarrow> client" where
  "settle E i c =
     (if i < length (inflight c)
      then (let d = inflight c ! i;
                c1 = c\<lparr>inflight := take i (inflight c) @ drop (Suc i) (inflight c)\<rparr>;
                c2 = (case outcome d of
                        None \<Rightarrow> c1
                      | Some e \<Rightarrow>
                          c1\<lparr>svc := (svc c1)\<lparr>syncQueue := syncQueue (svc c1) @ [awaiting d]\<rparr>\<rparr>)
            in next_delivery E (remaining d) c2)
      else c)"

text \<open>A call of \<open>addToSyncQueue\<close> up to its first \<open>await\<close>.\<close>

definition enqueue ::
  "env \<Rightarrow> string \<Rightarrow> int \<Rightarrow> optype \<Rightarrow> string \<Rightarrow> entity \<Rightarrow> client \<Rightarrow> client" where
  "enqueue E uuid now ty st d c =
     (let syncOp = \<lparr>op_id = uuid, op_type = ty, store = st, data = d,
                     timestamp = JDate now, op_deviceId = deviceId (svc c)\<rparr>;
          s1 = (svc c)\<lparr>syncQueue := syncQueue (svc c) @ [syncOp]\<rparr>
      in case saveSyncQueue E s1 of
           (Some e, s2) \<Rightarrow> c\<lparr>svc := s2\<rparr>
         | (None, s2) \<Rightarrow> if isOnline s2 then begin_drain E (c\<lparr>svc := s2\<rparr>) else c\<lparr>svc := s2\<rparr>)"

text \<open>What can happen next, and a run as a sequence of such steps.\<close>

datatype event =
    EvEnqueue string int optype string entity
  | EvOnline
  | EvOffline
  | EvSettle nat

fun step :: "env \<Rightarrow> client \<Rightarrow> event \<Rightarrow> client" where
  "step E c (EvEnqueue uuid now ty st d) = enqueue E uuid now ty st d c"
| "step E c EvOnline = begin_drain E (c\<lparr>svc := (svc c)\<lparr>isOnline := True\<rparr>\<rparr>)"
| "step E c EvOffline = c\<lparr>svc := on_offline (svc c)\<rparr>"
| "step E c (EvSettle i) = settle E i c"

definition run :: "env \<Rightarrow> event list \<Rightarrow> client \<Rightarrow> client" where
  "run E evs c = foldl (step E) c evs"

subsection \<open>The copy of the service with a retry counter\<close>

text \<open>
  The repository holds a second copy of \<open>FirebaseSyncService\<close>, which validates access
  before it touches the queue or the remote database and counts failed deliveries in
  \<open>retryAttempts\<close>, against \<open>maxRetries = 3\<close>. Its functions carry the suffix \<open>2\<close> here.
\<close>

definition maxRetries :: nat where
  "maxRetries = 3"

definition validateAccess :: "sync_state \<Rightarrow> error + stored_text" where
  "validateAccess s =
     (case localStorage s ''arkive-device-id'' of
        None \<Rightarrow> Inl Unauthorized
      | Some d \<Rightarrow> if text_truthy d then Inr d else Inl Unauthorized)"

definition syncToFirebase2 :: "env \<Rightarrow> SyncOperation \<Rightarrow> sync_state \<Rightarrow> error option \<times> sync_state" where
  "syncToFirebase2 E x s =
     (case validateAccess s of
        Inl e \<Rightarrow> (Some Unauthorized, s)
      | Inr d \<Rightarrow>
          if \<not> isOnline s then (Some Offline, s)
          else if \<not> valid_path (store x @ ''/'' @ eid (data x)) then (Some InvalidArgument, s)
          else (case op_type x of
                  Delete \<Rightarrow> remote_remove E (store x) (eid (data x)) s
                | _ \<Rightarrow>
                    (case toISOString (new_Date (timestamp x)) of
                       Inl e \<Rightarrow> (Some e, s)
                     | Inr lm \<Rightarrow>
                         remote_set E (store x)
                           (entity_set ''deviceId'' (JStr (deviceId s))
                              (entity_set ''syncedBy'' (JStr (deviceId s))
                                 (entity_set ''lastModified'' lm (data x)))) s)))"

fun drain_loop2 :: "env \<Rightarrow> SyncOperation list \<Rightarrow> sync_state \<Rightarrow> sync_state" where
  "drain_loop2 E [] s = s"
| "drain_loop2 E (x # xs) s =
     (case syncToFirebase2 E x s of
        (None, s') \<Rightarrow> drain_loop2 E xs s'
      | (Some e, s') \<Rightarrow>
          drain_loop2 E xs
            (s'\<lparr>retryAttempts := Suc (retryAttempts s'), syncQueue := syncQueue s' @ [x]\<rparr>))"

definition processSyncQueue2 :: "env \<Rightarrow> sync_state \<Rightarrow> error option \<times> sync_state" where
  "processSyncQueue2 E s =
     (if \<not> isOnline s \<or> length (syncQueue s) = 0 \<or> retryAttempts s \<ge> maxRetries
      then (None, s)
      else saveSyncQueue E (drain_loop2 E (syncQueue s) (s\<lparr>syncQueue := []\<rparr>)))"

definition addToSyncQueue2 ::
  "env \<Rightarrow> string \<Rightarrow> int \<Rightarrow> optype \<Rightarrow> string \<Rightarrow> entity \<Rightarrow> sync_state \<Rightarrow> error option \<times> sync_state" where
  "addToSyncQueue2 E uuid now ty st d s =
     (case validateAccess s of
        Inl e \<Rightarrow> (None, s)
      | Inr dev \<Rightarrow>
          (let syncOp = \<lparr>op_id = uuid, op_type = ty, store = st, data = d,
                          timestamp = JDate now, op_deviceId = deviceId s\<rparr>;
               s1 = s\<lparr>syncQueue := syncQueue s @ [syncOp]\<rparr>
           in case saveSyncQueue E s1 of
                (Some e, s2) \<Rightarrow> (Some e, s2)
              | (None, s2) \<Rightarrow> if isOnline s2 then processSyncQueue2 E s2 else (None, s2)))"

text \<open>The \<open>online\<close> handler of this copy resets the counter; its 30-second timer
  drains when there is work.\<close>

definition on_online2 :: "env \<Rightarrow> sync_state \<Rightarrow> error option \<times> sync_state" where
  "on_online2 E s = processSyncQueue2 E (s\<lparr>isOnline := True, retryAttempts := 0\<rparr>)"






subsection \<open>Drains in flight, with the retry counter\<close>

definition next_delivery2 :: "env \<Rightarrow> SyncOperation list \<Rightarrow> client \<Rightarrow> client" where
  "next_delivery2 E xs c =
     (case xs of
        [] \<Rightarrow> c\<lparr>svc := snd (saveSyncQueue E (svc c))\<rparr>
      | x # rest \<Rightarrow>
          (case syncToFirebase2 E x (svc c) of
             (r, s') \<Rightarrow>
               c\<lparr>svc := s',
                 inflight := inflight c @ [\<lparr>awaiting = x, outcome = r, remaining = rest\<rparr>]\<rparr>))"

definition begin_drain2 :: "env \<Rightarrow> client \<Rightarrow> client" where
  "begin_drain2 E c =
     (if \<not> isOnline (svc c) \<or> length (syncQueue (svc c)) = 0
         \<or> retryAttempts (svc c) \<ge> maxRetries then c
      else next_delivery2 E (syncQueue (svc c)) (c\<lparr>svc := (svc c)\<lparr>syncQueue := []\<rparr>\<rparr>))"

definition settle2 :: "env \<Rightarrow> nat \<Rightarrow> client \<Rightarrow> client" where
  "settle2 E i c =
     (if i < length (inflight c)
      then (let d = inflight c ! i;
                c1 = c\<lparr>inflight := take i (inflight c) @ drop (Suc i) (inflight c)\<rparr>;
                c2 = (case outcome d of
                        None \<Rightarrow> c1
                      | Some e \<Rightarrow>
                          c1\<lparr>svc := (svc c1)\<lparr>retryAttempts := Suc (retryAttempts (svc c1)),
                                           syncQueue := syncQueue (svc c1) @ [awaiting d]\<rparr>\<rparr>)
            in next_delivery2 E (remaining d) c2)
      else c)"

definition enqueue2 ::
  "env \<Rightarrow> string \<Rightarrow> int \<Rightarrow> optype \<Rightarrow> string \<Rightarrow> entity \<Rightarrow> client \<Rightarrow> client" where
  "enqueue2 E uuid now ty st d c =
     (case validateAccess (svc c) of
        Inl e \<Rightarrow> c
      | Inr dev \<Rightarrow>
          (let syncOp = \<lparr>op_id = uuid, op_type = ty, store = st, data = d,
                          timestamp = JDate now, op_deviceId = deviceId (svc c)\<rparr>;
               s1 = (svc c)\<lparr>syncQueue := syncQueue (svc c) @ [syncOp]\<rparr>
           in case saveSyncQueue E s1 of
                (Some e, s2) \<Rightarrow> c\<lparr>svc := s2\<rparr>
              | (None, s2) \<Rightarrow>
                  if isOnline s2 then begin_drain2 E (c\<lparr>svc := s2\<rparr>) else c\<lparr>svc := s2\<rparr>))"

datatype event2 =
    EvEnqueue2 string int optype string entity
  | EvOnline2
  | EvOffline2
  | EvTick2
  | EvSettle2 nat

fun step2 :: "env \<Rightarrow> client \<Rightarrow> event2 \<Rightarrow> client" where
  "step2 E c (EvEnqueue2 uuid now ty st d) = enqueue2 E uuid now ty st d c"
| "step2 E c EvOnline2 =
     begin_drain2 E (c\<lparr>svc := (svc c)\<lparr>isOnline := True, retryAttempts := 0\<rparr>\<rparr>)"
| "step2 E c EvOffline2 = c\<lparr>svc := on_offline (svc c)\<rparr>"
| "step2 E c EvTick2 =
     (if isOnline (svc c) \<and> length (syncQueue (svc c)) > 0 then begin_drain2 E c else c)"
| "step2 E c (EvSettle2 i) = settle2 E i c"

definition run2 :: "env \<Rightarrow> event2 list \<Rightarrow> client \<Rightarrow> client" where
  "run2 E evs c = foldl (step2 E) c evs"

section \<open>The local database\<close>

text \<open>
  \<open>DatabaseService\<close> keeps its records in the IndexedDB database \<open>arkive-database\<close>. An
  object store is the list of its records, each under its \<open>id\<close> (the key path of every
  store); the order of the list carries no meaning (IndexedDB returns records in key
  order). The database is the list of its named object stores.
\<close>

type_synonym object_stores = "(string \<times> entity list) list"

text \<open>The database as the browser holds it before the service opens it: its version
  (0 when it does not exist yet) and its object stores.\<close>

record idb =
  idb_version :: nat
  idb_stores :: object_stores

definition dbVersion :: nat where
  "dbVersion = 9"

definition storeNames :: "string list" where
  "storeNames = [''users'', ''clients'', ''receipts'', ''expenses'', ''activities'',
     ''notifications'', ''documents'', ''employees'', ''attendance'']"

text \<open>\<open>onupgradeneeded\<close>: every name of \<open>storeNames\<close> that the database does not contain
  yet gets a new, empty object store.\<close>

definition upgrade :: "object_stores \<Rightarrow> object_stores" where
  "upgrade os = os @ map (\<lambda>n. (n, [])) (filter (\<lambda>n. n \<notin> set (map fst os)) storeNames)"

text \<open>\<open>init\<close>: \<open>indexedDB.open(dbName, dbVersion)\<close> fails with a VersionError when the
  stored version is higher, runs the upgrade when it is lower, and opens the database
  as it is otherwise. The result is what \<open>initPromise\<close> settles to.\<close>

definition init :: "idb \<Rightarrow> error + object_stores" where
  "init b =
     (if dbVersion < idb_version b then Inl VersionError
      else if idb_version b < dbVersion then Inr (upgrade (idb_stores b))
      else Inr (idb_stores b))"

text \<open>The application state: the database service (the outcome of \<open>init\<close>) and the
  sync service.\<close>

record app =
  dbs :: "error + object_stores"
  sync :: sync_state

text \<open>\<open>getObjectStore\<close>: awaiting a rejected \<open>initPromise\<close> rethrows its error;
  \<open>db.transaction([storeName])\<close> throws a NotFoundError for a store that does not
  exist.\<close>

definition getObjectStore :: "app \<Rightarrow> string \<Rightarrow> error + entity list" where
  "getObjectStore a storeName =
     (case dbs a of
        Inl e \<Rightarrow> Inl e
      | Inr os \<Rightarrow> (case map_of os storeName of None \<Rightarrow> Inl NotFoundError | Some rs \<Rightarrow> Inr rs))"

definition set_store :: "string \<Rightarrow> entity list \<Rightarrow> app \<Rightarrow> app" where
  "set_store storeName rs a =
     (case dbs a of
        Inl e \<Rightarrow> a
      | Inr os \<Rightarrow> a\<lparr>dbs := Inr (AList.update storeName rs os)\<rparr>)"

subsection \<open>Requests on an object store\<close>

text \<open>The unique indexes that the upgrade handler creates.\<close>

definition unique_index :: "string \<Rightarrow> string option" where
  "unique_index storeName =
     (if storeName = ''users'' then Some ''username''
      else if storeName = ''clients'' then Some ''cnic''
      else if storeName = ''employees'' then Some ''employeeId''
      else None)"

text \<open>Only strings, numbers, valid dates and arrays of these are keys; a record whose
  indexed property is anything else is not entered in the index.\<close>

fun valid_key :: "jsval \<Rightarrow> bool" and valid_keys :: "jsval list \<Rightarrow> bool" where
  "valid_key (JStr s) = True"
| "valid_key (JIso t) = True"
| "valid_key (JNum n) = True"
| "valid_key (JDate t) = True"
| "valid_key (JArr vs) = valid_keys vs"
| "valid_key JUndefined = False"
| "valid_key JNull = False"
| "valid_key (JBool b) = False"
| "valid_key JInvalidDate = False"
| "valid_key (JObj ps) = False"
| "valid_keys [] = True"
| "valid_keys (v # vs) = (valid_key v \<and> valid_keys vs)"

definition index_conflict :: "string \<Rightarrow> entity \<Rightarrow> entity list \<Rightarrow> bool" where
  "index_conflict storeName e rs =
     (case unique_index storeName of
        None \<Rightarrow> False
      | Some k \<Rightarrow>
          valid_key (entity_prop e k) \<and>
          (\<exists>r \<in> set rs. eid r \<noteq> eid e \<and> entity_prop r k = entity_prop e k))"

text \<open>\<open>store.add\<close> fails with a ConstraintError when the key is taken or a unique index
  would get a second entry; \<open>store.put\<close> replaces the record under the key or inserts
  it, and fails only on the unique index; \<open>store.delete\<close> and \<open>store.clear\<close> always
  succeed.\<close>

definition store_add :: "string \<Rightarrow> entity \<Rightarrow> entity list \<Rightarrow> error + entity list" where
  "store_add storeName e rs =
     (if eid e \<in> set (map eid rs) \<or> index_conflict storeName e rs then Inl ConstraintError
      else Inr (rs @ [e]))"

definition store_put :: "string \<Rightarrow> entity \<Rightarrow> entity list \<Rightarrow> error + entity list" where
  "store_put storeName e rs =
     (if index_conflict storeName e rs then Inl ConstraintError else Inr (put_node e rs))"

definition store_delete :: "string \<Rightarrow> entity list \<Rightarrow> entity list" where
  "store_delete i rs = filter (\<lambda>r. eid r \<noteq> i) rs"

definition store_get :: "string \<Rightarrow> entity list \<Rightarrow> entity option" where
  "store_get i rs = find (\<lambda>r. eid r = i) rs"

subsection \<open>The accessors of DatabaseService\<close>

text \<open>
  \<open>firebaseSync.addToSyncQueue(...).catch(console.warn)\<close>: the call is not awaited and a
  rejection is only logged, so the caller sees the new state of the sync service and
  never the error.
\<close>

definition enqueue_and_forget ::
  "env \<Rightarrow> string \<Rightarrow> int \<Rightarrow> optype \<Rightarrow> string \<Rightarrow> entity \<Rightarrow> app \<Rightarrow> app" where
  "enqueue_and_forget E ouid now ty st d a =
     a\<lparr>sync := snd (addToSyncQueue E ouid now ty st d (sync a))\<rparr>"

text \<open>\<open>{...x, id: crypto.randomUUID(), k1: v1, ...}\<close>: the argument's properties with a
  new id and the listed properties set, in order.\<close>

definition new_record :: "string \<Rightarrow> props \<Rightarrow> props \<Rightarrow> entity" where
  "new_record uuid extra ps =
     fold (\<lambda>kv e. entity_set (fst kv) (snd kv) e) extra
       \<lparr>eid = uuid, eprops = filter (\<lambda>p. fst p \<noteq> ''id'') ps\<rparr>"

definition with_props :: "props \<Rightarrow> entity \<Rightarrow> entity" where
  "with_props extra e = fold (\<lambda>kv e. entity_set (fst kv) (snd kv) e) extra e"

text \<open>
  The shape shared by the create functions: open the store, build the record, enqueue
  the sync operation (when the function does), then \<open>store.add\<close>; the promise resolves
  with the record or rejects with the request's error. \<open>uuid\<close> is the record's new id,
  \<open>ouid\<close> the id of the sync operation and \<open>now\<close> the instant of the \<open>new Date()\<close> calls.
\<close>

definition create_record ::
  "env \<Rightarrow> string \<Rightarrow> bool \<Rightarrow> string \<Rightarrow> int \<Rightarrow> entity \<Rightarrow> app \<Rightarrow> (error + entity) \<times> app" where
  "create_record E st synced ouid now newRec a =
     (case getObjectStore a st of
        Inl e \<Rightarrow> (Inl e, a)
      | Inr rs \<Rightarrow>
          (let a1 = (if synced then enqueue_and_forget E ouid now Create st newRec a else a)
           in case store_add st newRec rs of
                Inl e \<Rightarrow> (Inl e, a1)
              | Inr rs' \<Rightarrow> (Inr newRec, set_store st rs' a1)))"

definition update_record ::
  "env \<Rightarrow> string \<Rightarrow> string \<Rightarrow> int \<Rightarrow> entity \<Rightarrow> app \<Rightarrow> (error + unit) \<times> app" where
  "update_record E st ouid now updated a =
     (case getObjectStore a st of
        Inl e \<Rightarrow> (Inl e, a)
      | Inr rs \<Rightarrow>
          (let a1 = enqueue_and_forget E ouid now Update st updated a
           in case store_put st updated rs of
                Inl e \<Rightarrow> (Inl e, a1)
              | Inr rs' \<Rightarrow> (Inr (), set_store st rs' a1)))"

definition delete_record ::
  "env \<Rightarrow> string \<Rightarrow> string \<Rightarrow> int \<Rightarrow> string \<Rightarrow> app \<Rightarrow> (error + unit) \<times> app" where
  "delete_record E st ouid now i a =
     (case getObjectStore a st of
        Inl e \<Rightarrow> (Inl e, a)
      | Inr rs \<Rightarrow>
          (let a1 = enqueue_and_forget E ouid now Delete st \<lparr>eid = i, eprops = []\<rparr> a
           in (Inr (), set_store st (store_delete i rs) a1)))"

definition createUser where
  "createUser E uuid ouid now user =
     create_record E ''users'' True ouid now
       (new_record uuid [(''createdAt'', JDate now), (''lastModified'', JDate now)] user)"

definition updateUser where
  "updateUser E ouid now user =
     update_record E ''users'' ouid now (with_props [(''lastModified'', JDate now)] user)"

definition deleteUser where
  "deleteUser E ouid now userId = delete_record E ''users'' ouid now userId"

definition createClient where
  "createClient E uuid ouid now client =
     create_record E ''clients'' True ouid now
       (new_record uuid [(''createdAt'', JDate now), (''updatedAt'', JDate now),
          (''lastModified'', JDate now)] client)"

definition updateClient where
  "updateClient E ouid now client =
     update_record E ''clients'' ouid now
       (with_props [(''updatedAt'', JDate now), (''lastModified'', JDate now)] client)"

definition deleteClient where
  "deleteClient E ouid now i = delete_record E ''clients'' ouid now i"

definition createReceipt where
  "createReceipt E uuid ouid now receipt =
     create_record E ''receipts'' True ouid now
       (new_record uuid [(''createdAt'', JDate now), (''lastModified'', JDate now)] receipt)"

definition updateReceipt where
  "updateReceipt E ouid now receipt =
     update_record E ''receipts'' ouid now (with_props [(''lastModified'', JDate now)] receipt)"

definition deleteReceipt where
  "deleteReceipt E ouid now i = delete_record E ''receipts'' ouid now i"

definition createExpense where
  "createExpense E uuid ouid now expense =
     create_record E ''expenses'' True ouid now
       (new_record uuid [(''createdAt'', JDate now), (''lastModified'', JDate now)] expense)"

definition updateExpense where
  "updateExpense E ouid now expense =
     update_record E ''expenses'' ouid now (with_props [(''lastModified'', JDate now)] expense)"

definition deleteExpense where
  "deleteExpense E ouid now i = delete_record E ''expenses'' ouid now i"

text \<open>\<open>createActivity\<close> and \<open>createNotification\<close> add the record and enqueue nothing.\<close>

definition createActivity where
  "createActivity E uuid ouid now activity =
     create_record E ''activities'' False ouid now (new_record uuid [] activity)"

definition createNotification where
  "createNotification E uuid ouid now notification =
     create_record E ''notifications'' False ouid now (new_record uuid [] notification)"

definition markNotificationAsRead :: "string \<Rightarrow> app \<Rightarrow> (error + unit) \<times> app" where
  "markNotificationAsRead i a =
     (case getObjectStore a ''notifications'' of
        Inl e \<Rightarrow> (Inl e, a)
      | Inr rs \<Rightarrow>
          (case store_get i rs of
             None \<Rightarrow> (Inr (), a)
           | Some n \<Rightarrow>
               (case store_put ''notifications'' (entity_set ''read'' (JBool True) n) rs of
                  Inl e \<Rightarrow> (Inl e, a)
                | Inr rs' \<Rightarrow> (Inr (), set_store ''notifications'' rs' a))))"

definition createDocument where
  "createDocument E uuid ouid now doc =
     create_record E ''documents'' True ouid now
       (new_record uuid [(''uploadedAt'', JDate now), (''lastModified'', JDate now),
          (''accessLog'', JArr [JObj [(''userId'', get_prop doc ''uploadedBy''),
             (''timestamp'', JDate now), (''action'', JStr ''upload'')]])] doc)"

definition updateDocument where
  "updateDocument E ouid now doc =
     update_record E ''documents'' ouid now (with_props [(''lastModified'', JDate now)] doc)"

definition deleteDocument where
  "deleteDocument E ouid now i = delete_record E ''documents'' ouid now i"

definition createEmployee where
  "createEmployee E uuid ouid now e =
     create_record E ''employees'' True ouid now
       (new_record uuid [(''createdAt'', JDate now), (''updatedAt'', JDate now),
          (''lastModified'', JDate now)] e)"

definition updateEmployee where
  "updateEmployee E ouid now e =
     update_record E ''employees'' ouid now
       (with_props [(''updatedAt'', JDate now), (''lastModified'', JDate now)] e)"

definition deleteEmployee where
  "deleteEmployee E ouid now i = delete_record E ''employees'' ouid now i"

definition markAttendance where
  "markAttendance E uuid ouid now r =
     create_record E ''attendance'' True ouid now
       (new_record uuid [(''lastModified'', JDate now)] r)"

definition updateAttendance where
  "updateAttendance E ouid now r =
     update_record E ''attendance'' ouid now (with_props [(''lastModified'', JDate now)] r)"

definition deleteAttendance where
  "deleteAttendance E ouid now i = delete_record E ''attendance'' ouid now i"

definition clearStore :: "string \<Rightarrow> app \<Rightarrow> (error + unit) \<times> app" where
  "clearStore storeName a =
     (case getObjectStore a storeName of
        Inl e \<Rightarrow> (Inl e, a)
      | Inr rs \<Rightarrow> (Inr (), set_store storeName [] a))"

text \<open>\<open>getLastSyncTime\<close> and \<open>updateLastSyncTime\<close> work on an object store named
  \<open>sync_metadata\<close>, under the key \<open>last_sync\<close>.\<close>

definition getLastSyncTime :: "app \<Rightarrow> (error + jsval) \<times> app" where
  "getLastSyncTime a =
     (case getObjectStore a ''sync_metadata'' of
        Inl e \<Rightarrow> (Inl e, a)
      | Inr rs \<Rightarrow>
          (case store_get ''last_sync'' rs of
             None \<Rightarrow> (Inr JNull, a)
           | Some r \<Rightarrow> (Inr (new_Date (entity_prop r ''timestamp'')), a)))"

text \<open>In \<open>updateLastSyncTime\<close>, \<open>dev\<close> is the string that \<open>this.getDeviceId()\<close> returns.\<close>

definition updateLastSyncTime :: "int \<Rightarrow> string \<Rightarrow> app \<Rightarrow> (error + unit) \<times> app" where
  "updateLastSyncTime now dev a =
     (case getObjectStore a ''sync_metadata'' of
        Inl e \<Rightarrow> (Inl e, a)
      | Inr rs \<Rightarrow>
          (case store_put ''sync_metadata''
                  \<lparr>eid = ''last_sync'',
                   eprops = [(''timestamp'', JDate now), (''deviceId'', JStr dev)]\<rparr> rs of
             Inl e \<Rightarrow> (Inl e, a)
           | Inr rs' \<Rightarrow> (Inr (), set_store ''sync_metadata'' rs' a)))"

subsection \<open>Reading a collection from the remote database\<close>

text \<open>The object that \<open>getStoreFromFirebase\<close> builds from a remote node: \<open>createdAt\<close> is
  always converted, the other seven listed properties are converted when truthy and
  set to \<open>undefined\<close> otherwise; every other property is copied as it is.\<close>

definition rehydrated_names :: "string list" where
  "rehydrated_names = [''updatedAt'', ''lastModified'', ''date'', ''timestamp'',
     ''uploadedAt'', ''lastAccessed'', ''lastLogin'']"

definition rehydrate :: "entity \<Rightarrow> entity" where
  "rehydrate item =
     fold (\<lambda>k e. entity_set k
             (if truthy (entity_prop item k) then new_Date (entity_prop item k) else JUndefined) e)
       rehydrated_names
       (entity_set ''createdAt'' (new_Date (entity_prop item ''createdAt'')) item)"

definition remote_get :: "env \<Rightarrow> string \<Rightarrow> sync_state \<Rightarrow> (error + entity list) \<times> sync_state" where
  "remote_get E st s =
     (if remote_ok E (issued s) then (Inr (rtdb s st), s\<lparr>issued := Suc (issued s)\<rparr>)
      else (Inl RemoteUnavailable, s\<lparr>issued := Suc (issued s)\<rparr>))"

text \<open>\<open>getStoreFromFirebase\<close> of \<open>services/firebaseSync.ts\<close>: offline, and when the read
  fails, the result is the empty list.\<close>

definition getStoreFromFirebase :: "env \<Rightarrow> string \<Rightarrow> sync_state \<Rightarrow> entity list \<times> sync_state" where
  "getStoreFromFirebase E storeName s =
     (if \<not> isOnline s then ([], s)
      else (case remote_get E storeName s of
              (Inl e, s') \<Rightarrow> ([], s')
            | (Inr ns, s') \<Rightarrow> (map rehydrate ns, s')))"

text \<open>\<open>setupRealtimeListener\<close> converts the same properties in the snapshots it delivers,
  and \<open>joinDate\<close> as well.\<close>

definition rehydrate_live :: "entity \<Rightarrow> entity" where
  "rehydrate_live item =
     fold (\<lambda>k e. entity_set k
             (if truthy (entity_prop item k) then new_Date (entity_prop item k) else JUndefined) e)
       (rehydrated_names @ [''joinDate''])
       (entity_set ''createdAt'' (new_Date (entity_prop item ''createdAt'')) item)"

subsection \<open>syncFromFirebase\<close>

fun fetch_all :: "env \<Rightarrow> string list \<Rightarrow> sync_state \<Rightarrow> (string \<times> entity list) list \<times> sync_state" where
  "fetch_all E [] s = ([], s)"
| "fetch_all E (n # ns) s =
     (case getStoreFromFirebase E n s of
        (items, s') \<Rightarrow> (case fetch_all E ns s' of (rest, s'') \<Rightarrow> ((n, items) # rest, s'')))"

fun clear_all :: "string list \<Rightarrow> app \<Rightarrow> (error + unit) \<times> app" where
  "clear_all [] a = (Inr (), a)"
| "clear_all (n # ns) a =
     (case clearStore n a of
        (Inl e, a') \<Rightarrow> (Inl e, a')
      | (Inr u, a') \<Rightarrow> clear_all ns a')"

text \<open>
  \<open>imp\<close> issues one \<open>store.add\<close> per item in a single transaction and waits for none of
  the requests. A request that fails has no error handler, so its error aborts the
  transaction: the store is left as it was when the transaction began, and \<open>imp\<close>
  resolves all the same.
\<close>

fun add_all :: "string \<Rightarrow> entity list \<Rightarrow> entity list \<Rightarrow> error + entity list" where
  "add_all st [] rs = Inr rs"
| "add_all st (i # items) rs =
     (case store_add st i rs of
        Inl e \<Rightarrow> Inl e
      | Inr rs' \<Rightarrow> add_all st items rs')"

definition imp :: "string \<Rightarrow> entity list \<Rightarrow> app \<Rightarrow> (error + unit) \<times> app" where
  "imp name items a =
     (case getObjectStore a name of
        Inl e \<Rightarrow> (Inl e, a)
      | Inr rs \<Rightarrow>
          (Inr (), set_store name (case add_all name items rs of Inl e \<Rightarrow> rs | Inr rs' \<Rightarrow> rs') a))"

text \<open>\<open>Promise.all\<close> over the nine imports: each one runs; the result is the first
  rejection, if any.\<close>

fun imp_all :: "(string \<times> entity list) list \<Rightarrow> app \<Rightarrow> (error + unit) \<times> app" where
  "imp_all [] a = (Inr (), a)"
| "imp_all ((n, items) # rest) a =
     (case imp n items a of
        (r, a') \<Rightarrow>
          (case imp_all rest a' of
             (r', a'') \<Rightarrow> ((case r of Inl e \<Rightarrow> Inl e | Inr u \<Rightarrow> r'), a'')))"

definition syncFromFirebase :: "env \<Rightarrow> app \<Rightarrow> (error + unit) \<times> app" where
  "syncFromFirebase E a =
     (case fetch_all E storeNames (sync a) of
        (fetched, s') \<Rightarrow>
          (case clear_all storeNames (a\<lparr>sync := s'\<rparr>) of
             (Inl e, a') \<Rightarrow> (Inl e, a')
           | (Inr u, a') \<Rightarrow> imp_all fetched a'))"

section \<open>Notions used to state the properties\<close>

text \<open>What an operation looks like after the queue has been written to
  \<open>localStorage\<close> and parsed again: its payload and timestamp in JSON form.\<close>

definition reloaded_entity :: "entity \<Rightarrow> entity" where
  "reloaded_entity d = \<lparr>eid = eid d, eprops = filter (\<lambda>p. fst p \<noteq> ''id'') (toJSON_props (eprops d))\<rparr>"

definition reloaded_op :: "SyncOperation \<Rightarrow> SyncOperation" where
  "reloaded_op x = x\<lparr>data := reloaded_entity (data x), timestamp := toJSON (timestamp x)\<rparr>"

text \<open>The call that the remote database applies for an operation when
  \<open>syncToFirebase\<close> delivers it, if \<open>syncToFirebase\<close> gets as far as making a call: it
  throws before when the path is invalid, when the timestamp is no date and when the
  SDK rejects the payload. \<open>call_of2\<close> is the same for the copy with the retry counter.\<close>

definition call_of :: "string \<Rightarrow> SyncOperation \<Rightarrow> remote_call option" where
  "call_of dev x =
     (if \<not> valid_path (store x @ ''/'' @ eid (data x)) then None
      else case op_type x of
        Delete \<Rightarrow> Some (RRemove (store x) (eid (data x)))
      | _ \<Rightarrow>
          (case toISOString (new_Date (timestamp x)) of
             Inl e \<Rightarrow> None
           | Inr lm \<Rightarrow>
               (let payload = entity_set ''syncedBy'' (JStr dev)
                                (entity_set ''lastModified'' lm (data x))
                in if sdk_accepts_props (eprops payload)
                   then Some (RSet (store x) (sdk_entity payload)) else None)))"

definition call_of2 :: "string \<Rightarrow> SyncOperation \<Rightarrow> remote_call option" where
  "call_of2 dev x =
     (if \<not> valid_path (store x @ ''/'' @ eid (data x)) then None
      else case op_type x of
        Delete \<Rightarrow> Some (RRemove (store x) (eid (data x)))
      | _ \<Rightarrow>
          (case toISOString (new_Date (timestamp x)) of
             Inl e \<Rightarrow> None
           | Inr lm \<Rightarrow>
               (let payload = entity_set ''deviceId'' (JStr dev)
                                (entity_set ''syncedBy'' (JStr dev)
                                   (entity_set ''lastModified'' lm (data x)))
                in if sdk_accepts_props (eprops payload)
                   then Some (RSet (store x) (sdk_entity payload)) else None)))"

text \<open>
  The fate of a batch of operations delivered one after the other, the first call made
  being call number \<open>n\<close>: an operation for which no call is made fails and uses no call
  number; one for which a call is made succeeds when the remote accepts that call.
  \<open>delivered\<close> and \<open>put_back\<close> are the operations that succeed and those that fail, each
  in the order of the batch.
\<close>

fun fates :: "env \<Rightarrow> (SyncOperation \<Rightarrow> remote_call option) \<Rightarrow> nat \<Rightarrow> SyncOperation list \<Rightarrow> bool list" where
  "fates E f n [] = []"
| "fates E f n (x # xs) =
     (case f x of
        None \<Rightarrow> False # fates E f n xs
      | Some c \<Rightarrow> remote_ok E n # fates E f (Suc n) xs)"

definition delivered :: "bool list \<Rightarrow> SyncOperation list \<Rightarrow> SyncOperation list" where
  "delivered fs xs = map fst (filter snd (zip xs fs))"

definition put_back :: "bool list \<Rightarrow> SyncOperation list \<Rightarrow> SyncOperation list" where
  "put_back fs xs = map fst (filter (\<lambda>p. \<not> snd p) (zip xs fs))"

text \<open>The effect of an applied call on the remote database, the calls that belong to
  a list of operations, and the number of operations of a list for which delivery
  makes a call.\<close>

fun apply_call :: "remote_call \<Rightarrow> (string \<Rightarrow> entity list) \<Rightarrow> (string \<Rightarrow> entity list)" where
  "apply_call (RSet st e) db = db(st := put_node e (db st))"
| "apply_call (RRemove st i) db = db(st := filter (\<lambda>n. eid n \<noteq> i) (db st))"
| "apply_call (RSetStore st es) db = db(st := es)"
| "apply_call (RSetMeta dev ps) db = db"

definition calls_of :: "(SyncOperation \<Rightarrow> remote_call option) \<Rightarrow> SyncOperation list \<Rightarrow> remote_call list" where
  "calls_of f xs = List.map_filter f xs"

definition attempts :: "(SyncOperation \<Rightarrow> remote_call option) \<Rightarrow> SyncOperation list \<Rightarrow> nat" where
  "attempts f xs = length (filter (\<lambda>x. f x \<noteq> None) xs)"

text \<open>A state of the service opened on the database \<open>b\<close>: \<open>init\<close> failed, or the object
  stores are those \<open>init\<close> produced, with any records.\<close>

definition opened_from :: "idb \<Rightarrow> app \<Rightarrow> bool" where
  "opened_from b a =
     (case (init b, dbs a) of
        (Inr os0, Inr os) \<Rightarrow> set (map fst os) = set (map fst os0)
      | (Inl e0, Inl e) \<Rightarrow> e = e0
      | _ \<Rightarrow> False)"

text \<open>The update functions, each with its store and the properties it stamps.\<close>

definition update_functions ::
  "int \<Rightarrow> ((env \<Rightarrow> string \<Rightarrow> int \<Rightarrow> entity \<Rightarrow> app \<Rightarrow> (error + unit) \<times> app) \<times> string \<times> props) list" where
  "update_functions now =
     [(updateUser, ''users'', [(''lastModified'', JDate now)]),
      (updateClient, ''clients'', [(''updatedAt'', JDate now), (''lastModified'', JDate now)]),
      (updateReceipt, ''receipts'', [(''lastModified'', JDate now)]),
      (updateExpense, ''expenses'', [(''lastModified'', JDate now)]),
      (updateDocument, ''documents'', [(''lastModified'', JDate now)]),
      (updateEmployee, ''employees'', [(''updatedAt'', JDate now), (''lastModified'', JDate now)]),
      (updateAttendance, ''attendance'', [(''lastModified'', JDate now)])]"

text \<open>The create functions, each with its store, whether it calls \<open>addToSyncQueue\<close>,
  and the record it builds.\<close>

definition create_functions ::
  "((env \<Rightarrow> string \<Rightarrow> string \<Rightarrow> int \<Rightarrow> props \<Rightarrow> app \<Rightarrow> (error + entity) \<times> app)
     \<times> string \<times> bool \<times> (string \<Rightarrow> int \<Rightarrow> props \<Rightarrow> entity)) list" where
  "create_functions =
     [(createUser, ''users'', True,
         \<lambda>uuid now x. new_record uuid [(''createdAt'', JDate now), (''lastModified'', JDate now)] x),
      (createClient, ''clients'', True,
         \<lambda>uuid now x. new_record uuid [(''createdAt'', JDate now), (''updatedAt'', JDate now),
            (''lastModified'', JDate now)] x),
      (createReceipt, ''receipts'', True,
         \<lambda>uuid now x. new_record uuid [(''createdAt'', JDate now), (''lastModified'', JDate now)] x),
      (createExpense, ''expenses'', True,
         \<lambda>uuid now x. new_record uuid [(''createdAt'', JDate now), (''lastModified'', JDate now)] x),
      (createActivity, ''activities'', False, \<lambda>uuid now x. new_record uuid [] x),
      (createNotification, ''notifications'', False, \<lambda>uuid now x. new_record uuid [] x),
      (createDocument, ''documents'', True,
         \<lambda>uuid now x. new_record uuid [(''uploadedAt'', JDate now), (''lastModified'', JDate now),
            (''accessLog'', JArr [JObj [(''userId'', get_prop x ''uploadedBy''),
               (''timestamp'', JDate now), (''action'', JStr ''upload'')]])] x),
      (createEmployee, ''employees'', True,
         \<lambda>uuid now x. new_record uuid [(''createdAt'', JDate now), (''updatedAt'', JDate now),
            (''lastModified'', JDate now)] x),
      (markAttendance, ''attendance'', True,
         \<lambda>uuid now x. new_record uuid [(''lastModified'', JDate now)] x)]"

text \<open>The delete functions with their stores.\<close>

definition delete_functions ::
  "((env \<Rightarrow> string \<Rightarrow> int \<Rightarrow> string \<Rightarrow> app \<Rightarrow> (error + unit) \<times> app) \<times> string) list" where
  "delete_functions =
     [(deleteUser, ''users''), (deleteClient, ''clients''), (deleteReceipt, ''receipts''),
      (deleteExpense, ''expenses''), (deleteDocument, ''documents''),
      (deleteEmployee, ''employees''), (deleteAttendance, ''attendance'')]"

text \<open>A list of records that one object store can hold: distinct ids, and distinct
  keys in the store's unique index.\<close>

definition unique_ok :: "string \<Rightarrow> entity list \<Rightarrow> bool" where
  "unique_ok st rs =
     (distinct (map eid rs) \<and>
      (case unique_index st of
         None \<Rightarrow> True
       | Some k \<Rightarrow> distinct (filter valid_key (map (\<lambda>r. entity_prop r k) rs))))"


section \<open>Sample environments and states\<close>

definition net_up :: env where
  "net_up = \<lparr>remote_ok = (\<lambda>n. True), storage_ok = (\<lambda>k v. True)\<rparr>"

definition idle_service :: sync_state where
  "idle_service = \<lparr>deviceId = ''dev-1'', isOnline = True, syncQueue = [], retryAttempts = 0,
     localStorage = [''arkive-device-id'' \<mapsto> Plain ''dev-1''], rtdb = (\<lambda>st. []),
     applied = [], issued = 0\<rparr>"

definition sample_op :: "string \<Rightarrow> optype \<Rightarrow> string \<Rightarrow> props \<Rightarrow> int \<Rightarrow> SyncOperation" where
  "sample_op i ty rid ps t = \<lparr>op_id = i, op_type = ty, store = ''clients'',
     data = \<lparr>eid = rid, eprops = ps\<rparr>, timestamp = JDate t, op_deviceId = ''dev-1''\<rparr>"

definition flaky :: env where
  "flaky = \<lparr>remote_ok = (\<lambda>n. n \<noteq> 0), storage_ok = (\<lambda>k v. True)\<rparr>"


text \<open>Two updates of client \<open>c1\<close> are queued offline; the device comes online and the
  first remote call is rejected; a second drain follows.\<close>

definition fifo_op1 :: SyncOperation where
  "fifo_op1 = \<lparr>op_id = ''o1'', op_type = Update, store = ''clients'',
     data = \<lparr>eid = ''c1'', eprops = [(''name'', JStr ''A'')]\<rparr>, timestamp = JDate 1,
     op_deviceId = ''dev-1''\<rparr>"

definition fifo_op2 :: SyncOperation where
  "fifo_op2 = \<lparr>op_id = ''o2'', op_type = Update, store = ''clients'',
     data = \<lparr>eid = ''c1'', eprops = [(''name'', JStr ''B'')]\<rparr>, timestamp = JDate 2,
     op_deviceId = ''dev-1''\<rparr>"

definition fifo_queued :: sync_state where
  "fifo_queued =
     snd (addToSyncQueue flaky ''o2'' 2 Update ''clients''
            \<lparr>eid = ''c1'', eprops = [(''name'', JStr ''B'')]\<rparr>
       (snd (addToSyncQueue flaky ''o1'' 1 Update ''clients''
            \<lparr>eid = ''c1'', eprops = [(''name'', JStr ''A'')]\<rparr>
          (idle_service\<lparr>isOnline := False\<rparr>))))"

definition fifo_drained_once :: sync_state where
  "fifo_drained_once = snd (on_online flaky fifo_queued)"

definition fifo_trace :: sync_state where
  "fifo_trace = snd (processSyncQueue flaky fifo_drained_once)"




definition fresh_idb :: idb where
  "fresh_idb = \<lparr>idb_version = 0, idb_stores = []\<rparr>"

definition fresh_app :: app where
  "fresh_app = \<lparr>dbs = init fresh_idb, sync = idle_service\<lparr>isOnline := False\<rparr>\<rparr>"

definition one_store_app :: "string \<Rightarrow> entity list \<Rightarrow> app" where
  "one_store_app st rs = \<lparr>dbs = Inr (AList.update st rs (map (\<lambda>n. (n, [])) storeNames)),
     sync = idle_service\<lparr>isOnline := False\<rparr>\<rparr>"

definition remote_two_clients :: "string \<Rightarrow> string \<Rightarrow> sync_state" where
  "remote_two_clients cn1 cn2 =
     idle_service\<lparr>rtdb := (\<lambda>st. [])(''clients'' :=
        [\<lparr>eid = ''c1'', eprops = [(''cnic'', JStr cn1)]\<rparr>,
         \<lparr>eid = ''c2'', eprops = [(''cnic'', JStr cn2)]\<rparr>])\<rparr>"

definition resync_app :: "string \<Rightarrow> string \<Rightarrow> app" where
  "resync_app cn1 cn2 =
     \<lparr>dbs = Inr (AList.update ''clients'' [\<lparr>eid = ''local'', eprops = [(''cnic'', JStr ''999'')]\<rparr>]
              (map (\<lambda>n. (n, [])) storeNames)),
      sync = remote_two_clients cn1 cn2\<rparr>"



text \<open>An environment whose \<open>localStorage\<close> is full, and a service that is offline with
  one operation queued and stored.\<close>

definition storage_full :: env where
  "storage_full = \<lparr>remote_ok = (\<lambda>n. True), storage_ok = (\<lambda>k v. False)\<rparr>"

definition pending_service :: sync_state where
  "pending_service = idle_service\<lparr>isOnline := False, syncQueue := [fifo_op1],
     localStorage := [''arkive-device-id'' \<mapsto> Plain ''dev-1'',
       ''arkive-sync-queue'' \<mapsto> queue_text [fifo_op1]]\<rparr>"

text \<open>Clients with no drain in flight: online with the two updates queued, online
  with one operation queued, and after the three failed drains of \<open>stalled\<close>.\<close>

definition fifo_client :: client where
  "fifo_client = \<lparr>svc = idle_service\<lparr>syncQueue := [fifo_op1, fifo_op2]\<rparr>, inflight = []\<rparr>"



section \<open>Properties of the sync queue\<close>

text \<open>
  C9. With an empty queue, or while offline, \<open>processSyncQueue\<close> (in either copy of the
  service) returns at once: the queue in memory, the persisted queue, the remote
  database and the number of remote calls issued are all as before (the whole state is
  unchanged) and nothing is thrown.
\<close>

theorem processSyncQueue_noop:
  "\<not> isOnline s \<or> syncQueue s = [] \<Longrightarrow>
   processSyncQueue E s = (None, s) \<and> processSyncQueue2 E s = (None, s)"
  by (auto simp: processSyncQueue_def processSyncQueue2_def)

theorem processSyncQueue_noop_witness:
  "processSyncQueue net_up idle_service = (None, idle_service) \<and>
   processSyncQueue net_up
       (idle_service\<lparr>isOnline := False, syncQueue := [sample_op ''o1'' Create ''c1'' [] 0]\<rparr>)
     = (None, idle_service\<lparr>isOnline := False, syncQueue := [sample_op ''o1'' Create ''c1'' [] 0]\<rparr>)"
  using processSyncQueue_noop [of idle_service net_up]
    processSyncQueue_noop [of "idle_service\<lparr>isOnline := False,
      syncQueue := [sample_op ''o1'' Create ''c1'' [] 0]\<rparr>" net_up]
  by (simp add: idle_service_def)

subsection \<open>Persisting and reloading the queue\<close>

lemma optype_of_text_text: "optype_of_text (optype_text t) = Some t"
  by (cases t) (simp_all add: optype_of_text_def)

lemma entity_of_val_toJSON:
  "entity_of_val (toJSON (entity_to_val d)) = Some (reloaded_entity d)"
  by (simp add: entity_of_val_def entity_to_val_def get_prop_def reloaded_entity_def)

lemma op_of_val_toJSON: "op_of_val (toJSON (op_to_val x)) = Some (reloaded_op x)"
proof (cases "timestamp x = JUndefined")
  case True
  then show ?thesis
    using entity_of_val_toJSON [of "data x"]
    by (simp add: op_of_val_def op_to_val_def get_prop_def optype_of_text_text
        reloaded_op_def entity_to_val_def)
next
  case False
  then show ?thesis
    using entity_of_val_toJSON [of "data x"]
    by (simp add: op_of_val_def op_to_val_def get_prop_def optype_of_text_text
        reloaded_op_def entity_to_val_def)
qed

lemma ops_of_vals_toJSON:
  "ops_of_vals (toJSON_elems (map op_to_val q)) = Some (map reloaded_op q)"
proof (induction q)
  case Nil
  then show ?case by simp
next
  case (Cons x q)
  have "op_to_val x \<noteq> JUndefined" by (simp add: op_to_val_def)
  with Cons show ?case by (simp add: op_of_val_toJSON)
qed

text \<open>
  C8 (as amended). When the queue has been saved and a service instance whose
  \<open>localStorage\<close> holds that text loads it, the loaded queue has the same operations in
  the same order, each with its id, type, store, device id and record id unchanged and
  its payload and timestamp in JSON form: a timestamp that was the date of instant \<open>t\<close>
  comes back as the ISO-8601 string of \<open>t\<close>, not as a date, and \<open>new Date\<close> of that
  string is the date of \<open>t\<close> again.
\<close>

theorem queue_reload:
  assumes "saveSyncQueue E s = (None, s1)" and "localStorage s2 = localStorage s1"
  shows "loadSyncQueue s2 = Some (s2\<lparr>syncQueue := map reloaded_op (syncQueue s)\<rparr>) \<and>
         (\<forall>x \<in> set (syncQueue s).
            op_id (reloaded_op x) = op_id x \<and> op_type (reloaded_op x) = op_type x \<and>
            store (reloaded_op x) = store x \<and> op_deviceId (reloaded_op x) = op_deviceId x \<and>
            eid (data (reloaded_op x)) = eid (data x) \<and>
            (\<forall>t. timestamp x = JDate t \<longrightarrow>
               timestamp (reloaded_op x) = JIso t \<and> new_Date (timestamp (reloaded_op x)) = JDate t))"
proof -
  from assms(1) have "localStorage s1 ''arkive-sync-queue'' = Some (queue_text (syncQueue s))"
    by (auto simp: saveSyncQueue_def setItem_def split: if_splits)
  with assms(2) have "localStorage s2 ''arkive-sync-queue'' = Some (queue_text (syncQueue s))"
    by simp
  then have "loadSyncQueue s2 = Some (s2\<lparr>syncQueue := map reloaded_op (syncQueue s)\<rparr>)"
    by (simp add: loadSyncQueue_def queue_text_def JSON_stringify_def queue_of_val_def ops_of_vals_toJSON)
  then show ?thesis by (simp add: reloaded_op_def reloaded_entity_def)
qed

theorem queue_reload_witness:
  "loadSyncQueue ((snd (saveSyncQueue net_up
        (idle_service\<lparr>syncQueue := [sample_op ''o1'' Create ''c1'' [] 7]\<rparr>)))\<lparr>syncQueue := []\<rparr>)
   = Some (((snd (saveSyncQueue net_up
        (idle_service\<lparr>syncQueue := [sample_op ''o1'' Create ''c1'' [] 7]\<rparr>)))\<lparr>syncQueue := []\<rparr>)
        \<lparr>syncQueue := [reloaded_op (sample_op ''o1'' Create ''c1'' [] 7)]\<rparr>) \<and>
   timestamp (reloaded_op (sample_op ''o1'' Create ''c1'' [] 7)) = JIso 7"
  using queue_reload [of net_up "idle_service\<lparr>syncQueue := [sample_op ''o1'' Create ''c1'' [] 7]\<rparr>"
      "snd (saveSyncQueue net_up (idle_service\<lparr>syncQueue := [sample_op ''o1'' Create ''c1'' [] 7]\<rparr>))"
      "(snd (saveSyncQueue net_up
         (idle_service\<lparr>syncQueue := [sample_op ''o1'' Create ''c1'' [] 7]\<rparr>)))\<lparr>syncQueue := []\<rparr>"]
  by (simp add: saveSyncQueue_def setItem_def net_up_def idle_service_def sample_op_def)

text \<open>The claim as stated fails: a queue holding one operation stamped with the date
  of instant 7 is saved and loaded; the loaded operation carries the string, so the
  loaded queue differs from the original.\<close>

theorem queue_reload_counterexample:
  "loadSyncQueue ((snd (saveSyncQueue net_up
        (idle_service\<lparr>syncQueue := [sample_op ''o1'' Create ''c1'' [] 7]\<rparr>)))\<lparr>syncQueue := []\<rparr>)
   = Some (idle_service\<lparr>syncQueue := [(sample_op ''o1'' Create ''c1'' [] 7)\<lparr>timestamp := JIso 7\<rparr>],
       localStorage := [''arkive-device-id'' \<mapsto> Plain ''dev-1'',
         ''arkive-sync-queue'' \<mapsto> queue_text [sample_op ''o1'' Create ''c1'' [] 7]]\<rparr>) \<and>
   [(sample_op ''o1'' Create ''c1'' [] 7)\<lparr>timestamp := JIso 7\<rparr>]
     \<noteq> [sample_op ''o1'' Create ''c1'' [] 7]"
  by (simp add: saveSyncQueue_def setItem_def net_up_def idle_service_def loadSyncQueue_def
      queue_text_def JSON_stringify_def queue_of_val_def op_of_val_def op_to_val_def sample_op_def
      get_prop_def entity_to_val_def entity_of_val_def optype_of_text_def)

subsection \<open>Enqueueing\<close>

lemma loadSyncQueue_saved:
  "localStorage s ''arkive-sync-queue'' = Some (queue_text q) \<Longrightarrow>
   loadSyncQueue s = Some (s\<lparr>syncQueue := map reloaded_op q\<rparr>)"
  by (simp add: loadSyncQueue_def queue_text_def JSON_stringify_def queue_of_val_def
      ops_of_vals_toJSON)

text \<open>
  C7 (as amended). \<open>addToSyncQueue\<close> pushes the new operation (the caller's type, store
  and data with a fresh id, the current instant and the device id) onto the end of
  \<open>syncQueue\<close>, which grows by one, whatever else happens. When \<open>localStorage\<close> accepts
  the write, the text of the whole resulting queue replaces what was stored under
  \<open>arkive-sync-queue\<close> (loading that text gives every operation of the queue, in order,
  in JSON form), and only then, and only when online, does a drain begin. When
  \<open>localStorage\<close> refuses the write, the operation is in memory only, the stored text
  is what it was, the call rejects and no drain begins. This holds of the call as a
  whole (\<open>addToSyncQueue\<close>) and of its part up to the first \<open>await\<close>, whatever drains are
  in flight (\<open>enqueue\<close>).
\<close>

theorem addToSyncQueue_appends:
  "let x = \<lparr>op_id = uuid, op_type = ty, store = st, data = d,
             timestamp = JDate now, op_deviceId = deviceId (svc c)\<rparr>;
       q = syncQueue (svc c) @ [x];
       saved = (svc c)\<lparr>syncQueue := q,
                 localStorage := (localStorage (svc c))(''arkive-sync-queue'' \<mapsto> queue_text q)\<rparr>
   in length q = Suc (length (syncQueue (svc c))) \<and>
      (if storage_ok E ''arkive-sync-queue'' (queue_text q)
       then addToSyncQueue E uuid now ty st d (svc c)
              = (if isOnline (svc c) then processSyncQueue E saved else (None, saved)) \<and>
            enqueue E uuid now ty st d c
              = (if isOnline (svc c) then begin_drain E (c\<lparr>svc := saved\<rparr>) else c\<lparr>svc := saved\<rparr>) \<and>
            loadSyncQueue saved = Some (saved\<lparr>syncQueue := map reloaded_op q\<rparr>)
       else addToSyncQueue E uuid now ty st d (svc c)
              = (Some QuotaExceededError, (svc c)\<lparr>syncQueue := q\<rparr>) \<and>
            enqueue E uuid now ty st d c = c\<lparr>svc := (svc c)\<lparr>syncQueue := q\<rparr>\<rparr>)"
  by (simp add: addToSyncQueue_def enqueue_def saveSyncQueue_def setItem_def Let_def
      loadSyncQueue_saved)

theorem addToSyncQueue_appends_witness:
  "addToSyncQueue net_up ''o2'' 2 Update ''clients'' \<lparr>eid = ''c1'', eprops = [(''name'', JStr ''B'')]\<rparr>
      pending_service
   = (None, pending_service\<lparr>syncQueue := [fifo_op1, fifo_op2],
        localStorage := [''arkive-device-id'' \<mapsto> Plain ''dev-1'',
          ''arkive-sync-queue'' \<mapsto> queue_text [fifo_op1, fifo_op2]]\<rparr>) \<and>
   loadSyncQueue (pending_service\<lparr>syncQueue := [fifo_op1, fifo_op2],
        localStorage := [''arkive-device-id'' \<mapsto> Plain ''dev-1'',
          ''arkive-sync-queue'' \<mapsto> queue_text [fifo_op1, fifo_op2]]\<rparr>)
   = Some (pending_service\<lparr>syncQueue := [reloaded_op fifo_op1, reloaded_op fifo_op2],
        localStorage := [''arkive-device-id'' \<mapsto> Plain ''dev-1'',
          ''arkive-sync-queue'' \<mapsto> queue_text [fifo_op1, fifo_op2]]\<rparr>) \<and>
   localStorage pending_service ''arkive-sync-queue'' = Some (queue_text [fifo_op1]) \<and>
   queue_text [fifo_op1, fifo_op2] \<noteq> queue_text [fifo_op1]"
  using addToSyncQueue_appends [of "''o2''" Update "''clients''"
      "\<lparr>eid = ''c1'', eprops = [(''name'', JStr ''B'')]\<rparr>" 2
      "\<lparr>svc = pending_service, inflight = []\<rparr>" net_up]
  by (simp add: Let_def net_up_def pending_service_def idle_service_def fifo_op1_def fifo_op2_def
      queue_text_def JSON_stringify_def)

text \<open>The claim as stated fails when \<open>localStorage\<close> has no room: one operation is queued
  and stored; a second one is enqueued and \<open>setItem\<close> throws. The queue in memory holds
  both operations, the stored text is still that of the first alone (a restart would
  load only that one), and the call rejects.\<close>

theorem enqueue_not_persisted_counterexample:
  "addToSyncQueue storage_full ''o2'' 2 Update ''clients''
      \<lparr>eid = ''c1'', eprops = [(''name'', JStr ''B'')]\<rparr> pending_service
   = (Some QuotaExceededError, pending_service\<lparr>syncQueue := [fifo_op1, fifo_op2]\<rparr>) \<and>
   localStorage (pending_service\<lparr>syncQueue := [fifo_op1, fifo_op2]\<rparr>) ''arkive-sync-queue''
     = Some (queue_text [fifo_op1]) \<and>
   loadSyncQueue (pending_service\<lparr>syncQueue := [fifo_op1, fifo_op2]\<rparr>)
     = Some (pending_service\<lparr>syncQueue := [reloaded_op fifo_op1]\<rparr>) \<and>
   queue_text [fifo_op1] \<noteq> queue_text [fifo_op1, fifo_op2]"
proof -
  have "queue_text [fifo_op1] \<noteq> queue_text [fifo_op1, fifo_op2]"
    by (simp add: queue_text_def JSON_stringify_def)
  moreover have "localStorage (pending_service\<lparr>syncQueue := [fifo_op1, fifo_op2]\<rparr>)
      ''arkive-sync-queue'' = Some (queue_text [fifo_op1])"
    by (simp add: pending_service_def)
  moreover from this have "loadSyncQueue (pending_service\<lparr>syncQueue := [fifo_op1, fifo_op2]\<rparr>)
     = Some (pending_service\<lparr>syncQueue := [reloaded_op fifo_op1]\<rparr>)"
    by (simp add: loadSyncQueue_saved)
  moreover have "addToSyncQueue storage_full ''o2'' 2 Update ''clients''
      \<lparr>eid = ''c1'', eprops = [(''name'', JStr ''B'')]\<rparr> pending_service
     = (Some QuotaExceededError, pending_service\<lparr>syncQueue := [fifo_op1, fifo_op2]\<rparr>)"
    by (simp add: addToSyncQueue_def saveSyncQueue_def setItem_def Let_def storage_full_def
        pending_service_def idle_service_def fifo_op2_def)
  ultimately show ?thesis by simp
qed

subsection \<open>Draining\<close>

text \<open>What \<open>syncToFirebase\<close> does with an operation, in terms of the call that belongs
  to the operation, and what an undisturbed drain does with a whole queue.\<close>

lemma syncToFirebase_no_call:
  "call_of (deviceId s) x = None \<Longrightarrow> \<exists>e. syncToFirebase E x s = (Some e, s)"
  by (auto simp: call_of_def syncToFirebase_def remote_set_def Let_def
      split: if_splits optype.splits sum.splits)

lemma syncToFirebase_call:
  "call_of (deviceId s) x = Some k \<Longrightarrow>
   syncToFirebase E x s =
     (if remote_ok E (issued s)
      then (None, s\<lparr>rtdb := apply_call k (rtdb s), applied := applied s @ [k],
                     issued := Suc (issued s)\<rparr>)
      else (Some RemoteUnavailable, s\<lparr>issued := Suc (issued s)\<rparr>))"
  by (auto simp: call_of_def syncToFirebase_def remote_set_def remote_remove_def Let_def
      split: if_splits optype.splits sum.splits)

lemma put_back_Cons [simp]:
  "put_back (b # fs) (x # xs) = (if b then put_back fs xs else x # put_back fs xs)"
  by (simp add: put_back_def)

lemma delivered_Cons [simp]:
  "delivered (b # fs) (x # xs) = (if b then x # delivered fs xs else delivered fs xs)"
  by (simp add: delivered_def)

lemma put_back_Nil [simp]: "put_back fs [] = []"
  by (simp add: put_back_def)

lemma delivered_Nil [simp]: "delivered fs [] = []"
  by (simp add: delivered_def)

lemma calls_of_Cons [simp]:
  "calls_of f (x # xs) = (case f x of None \<Rightarrow> calls_of f xs | Some k \<Rightarrow> k # calls_of f xs)"
  by (simp add: calls_of_def split: option.splits)

lemma calls_of_Nil [simp]: "calls_of f [] = []"
  by (simp add: calls_of_def)

lemma attempts_Cons [simp]:
  "attempts f (x # xs) = (if f x = None then attempts f xs else Suc (attempts f xs))"
  by (simp add: attempts_def)

lemma attempts_Nil [simp]: "attempts f [] = 0"
  by (simp add: attempts_def)

lemma drain_loop_exact:
  "drain_loop E xs s =
     s\<lparr>syncQueue := syncQueue s @ put_back (fates E (call_of (deviceId s)) (issued s) xs) xs,
       rtdb := fold apply_call
                 (calls_of (call_of (deviceId s))
                    (delivered (fates E (call_of (deviceId s)) (issued s) xs) xs)) (rtdb s),
       applied := applied s @
                 calls_of (call_of (deviceId s))
                    (delivered (fates E (call_of (deviceId s)) (issued s) xs) xs),
       issued := issued s + attempts (call_of (deviceId s)) xs\<rparr>"
proof (induction xs arbitrary: s)
  case Nil
  then show ?case by simp
next
  case (Cons x xs)
  show ?case
  proof (cases "call_of (deviceId s) x")
    case None
    then obtain e where "syncToFirebase E x s = (Some e, s)"
      using syncToFirebase_no_call by blast
    with None show ?thesis
      by (simp add: Cons.IH)
  next
    case (Some k)
    then show ?thesis
      by (simp add: syncToFirebase_call Cons.IH)
  qed
qed


lemma syncToFirebase2_no_call:
  "validateAccess s = Inr d \<Longrightarrow> isOnline s \<Longrightarrow> call_of2 (deviceId s) x = None \<Longrightarrow>
   \<exists>e. syncToFirebase2 E x s = (Some e, s)"
  by (auto simp: call_of2_def syncToFirebase2_def remote_set_def Let_def
      split: if_splits optype.splits sum.splits)

lemma syncToFirebase2_call:
  "validateAccess s = Inr d \<Longrightarrow> isOnline s \<Longrightarrow> call_of2 (deviceId s) x = Some k \<Longrightarrow>
   syncToFirebase2 E x s =
     (if remote_ok E (issued s)
      then (None, s\<lparr>rtdb := apply_call k (rtdb s), applied := applied s @ [k],
                     issued := Suc (issued s)\<rparr>)
      else (Some RemoteUnavailable, s\<lparr>issued := Suc (issued s)\<rparr>))"
  by (auto simp: call_of2_def syncToFirebase2_def remote_set_def remote_remove_def Let_def
      split: if_splits optype.splits sum.splits)

lemma drain_loop2_exact:
  "validateAccess s = Inr d \<Longrightarrow> isOnline s \<Longrightarrow>
   drain_loop2 E xs s =
     s\<lparr>syncQueue := syncQueue s @ put_back (fates E (call_of2 (deviceId s)) (issued s) xs) xs,
       retryAttempts := retryAttempts s
          + length (put_back (fates E (call_of2 (deviceId s)) (issued s) xs) xs),
       rtdb := fold apply_call
                 (calls_of (call_of2 (deviceId s))
                    (delivered (fates E (call_of2 (deviceId s)) (issued s) xs) xs)) (rtdb s),
       applied := applied s @
                 calls_of (call_of2 (deviceId s))
                    (delivered (fates E (call_of2 (deviceId s)) (issued s) xs) xs),
       issued := issued s + attempts (call_of2 (deviceId s)) xs\<rparr>"
proof (induction xs arbitrary: s)
  case Nil
  then show ?case by simp
next
  case (Cons x xs)
  have ih: "drain_loop2 E xs t =
     t\<lparr>syncQueue := syncQueue t @ put_back (fates E (call_of2 (deviceId t)) (issued t) xs) xs,
       retryAttempts := retryAttempts t
          + length (put_back (fates E (call_of2 (deviceId t)) (issued t) xs) xs),
       rtdb := fold apply_call
                 (calls_of (call_of2 (deviceId t))
                    (delivered (fates E (call_of2 (deviceId t)) (issued t) xs) xs)) (rtdb t),
       applied := applied t @
                 calls_of (call_of2 (deviceId t))
                    (delivered (fates E (call_of2 (deviceId t)) (issued t) xs) xs),
       issued := issued t + attempts (call_of2 (deviceId t)) xs\<rparr>"
    if "localStorage t = localStorage s" and "isOnline t" for t
    using Cons.IH [of t] Cons.prems(1) that by (simp add: validateAccess_def)
  show ?case
  proof (cases "call_of2 (deviceId s) x")
    case None
    then obtain e where "syncToFirebase2 E x s = (Some e, s)"
      using syncToFirebase2_no_call Cons.prems by blast
    with None Cons.prems show ?thesis
      by (simp add: ih)
  next
    case (Some k)
    with Cons.prems show ?thesis
      by (simp add: syncToFirebase2_call ih)
  qed
qed

text \<open>A drain whose calls settle one after the other, with nothing else handled in
  between, ends in the state that \<open>processSyncQueue\<close> gives.\<close>

lemma next_delivery_Nil:
  "next_delivery E [] c = c\<lparr>svc := snd (saveSyncQueue E (svc c))\<rparr>"
  by (simp add: next_delivery_def)

lemma next_delivery_Cons:
  "next_delivery E (x # xs) c =
     c\<lparr>svc := snd (syncToFirebase E x (svc c)),
       inflight := inflight c @
         [\<lparr>awaiting = x, outcome = fst (syncToFirebase E x (svc c)), remaining = xs\<rparr>]\<rparr>"
  by (simp add: next_delivery_def split: prod.splits)

lemma next_delivery2_Nil:
  "next_delivery2 E [] c = c\<lparr>svc := snd (saveSyncQueue E (svc c))\<rparr>"
  by (simp add: next_delivery2_def)

lemma next_delivery2_Cons:
  "next_delivery2 E (x # xs) c =
     c\<lparr>svc := snd (syncToFirebase2 E x (svc c)),
       inflight := inflight c @
         [\<lparr>awaiting = x, outcome = fst (syncToFirebase2 E x (svc c)), remaining = xs\<rparr>]\<rparr>"
  by (simp add: next_delivery2_def split: prod.splits)

lemma run_Cons: "run E (ev # evs) c = run E evs (step E c ev)"
  by (simp add: run_def)

lemma run_Nil: "run E [] c = c"
  by (simp add: run_def)

lemma run2_Cons: "run2 E (ev # evs) c = run2 E evs (step2 E c ev)"
  by (simp add: run2_def)

lemma run2_Nil: "run2 E [] c = c"
  by (simp add: run2_def)

lemma next_delivery_run:
  "run E (replicate (length xs) (EvSettle (length (inflight c)))) (next_delivery E xs c)
   = c\<lparr>svc := snd (saveSyncQueue E (drain_loop E xs (svc c)))\<rparr>"
proof (induction xs arbitrary: c)
  case Nil
  then show ?case by (simp add: next_delivery_Nil run_Nil)
next
  case (Cons x xs)
  obtain r s' where st: "syncToFirebase E x (svc c) = (r, s')"
    by (cases "syncToFirebase E x (svc c)")
  define c2 where
    "c2 = c\<lparr>svc := (case r of None \<Rightarrow> s' | Some e \<Rightarrow> s'\<lparr>syncQueue := syncQueue s' @ [x]\<rparr>)\<rparr>"
  have a: "settle E (length (inflight c)) (next_delivery E (x # xs) c) = next_delivery E xs c2"
    by (cases r) (simp_all add: settle_def next_delivery_Cons st Let_def c2_def)
  have b: "inflight c2 = inflight c" by (simp add: c2_def)
  have c: "drain_loop E (x # xs) (svc c) = drain_loop E xs (svc c2)"
    by (cases r) (simp_all add: st c2_def)
  have d: "c2\<lparr>svc := t\<rparr> = c\<lparr>svc := t\<rparr>" for t by (simp add: c2_def)
  have "run E (replicate (length (x # xs)) (EvSettle (length (inflight c))))
          (next_delivery E (x # xs) c)
        = run E (replicate (length xs) (EvSettle (length (inflight c))))
            (settle E (length (inflight c)) (next_delivery E (x # xs) c))"
    by (simp add: run_Cons)
  also have "\<dots> = run E (replicate (length xs) (EvSettle (length (inflight c2))))
            (next_delivery E xs c2)"
    by (simp only: a b)
  also have "\<dots> = c2\<lparr>svc := snd (saveSyncQueue E (drain_loop E xs (svc c2)))\<rparr>"
    by (rule Cons.IH)
  also have "\<dots> = c\<lparr>svc := snd (saveSyncQueue E (drain_loop E (x # xs) (svc c)))\<rparr>"
    by (simp only: c d)
  finally show ?case .
qed

lemma settle_idle:
  "run E (replicate n (EvSettle (length (inflight c)))) c = c"
  by (induction n) (simp_all add: settle_def run_Cons run_Nil)

lemma isolated_drain:
  "run E (replicate (length (syncQueue (svc c))) (EvSettle (length (inflight c)))) (begin_drain E c)
   = c\<lparr>svc := snd (processSyncQueue E (svc c))\<rparr>"
proof (cases "\<not> isOnline (svc c) \<or> length (syncQueue (svc c)) = 0")
  case True
  then show ?thesis
    by (simp add: begin_drain_def processSyncQueue_def settle_idle)
next
  case False
  then show ?thesis
    using next_delivery_run [of E "syncQueue (svc c)" "c\<lparr>svc := (svc c)\<lparr>syncQueue := []\<rparr>\<rparr>"]
    by (simp add: begin_drain_def processSyncQueue_def)
qed

lemma next_delivery2_run:
  "run2 E (replicate (length xs) (EvSettle2 (length (inflight c)))) (next_delivery2 E xs c)
   = c\<lparr>svc := snd (saveSyncQueue E (drain_loop2 E xs (svc c)))\<rparr>"
proof (induction xs arbitrary: c)
  case Nil
  then show ?case by (simp add: next_delivery2_Nil run2_Nil)
next
  case (Cons x xs)
  obtain r s' where st: "syncToFirebase2 E x (svc c) = (r, s')"
    by (cases "syncToFirebase2 E x (svc c)")
  define c2 where
    "c2 = c\<lparr>svc := (case r of None \<Rightarrow> s'
          | Some e \<Rightarrow> s'\<lparr>retryAttempts := Suc (retryAttempts s'),
                          syncQueue := syncQueue s' @ [x]\<rparr>)\<rparr>"
  have a: "settle2 E (length (inflight c)) (next_delivery2 E (x # xs) c) = next_delivery2 E xs c2"
    by (cases r) (simp_all add: settle2_def next_delivery2_Cons st Let_def c2_def)
  have b: "inflight c2 = inflight c" by (simp add: c2_def)
  have c: "drain_loop2 E (x # xs) (svc c) = drain_loop2 E xs (svc c2)"
    by (cases r) (simp_all add: st c2_def)
  have d: "c2\<lparr>svc := t\<rparr> = c\<lparr>svc := t\<rparr>" for t by (simp add: c2_def)
  have "run2 E (replicate (length (x # xs)) (EvSettle2 (length (inflight c))))
          (next_delivery2 E (x # xs) c)
        = run2 E (replicate (length xs) (EvSettle2 (length (inflight c))))
            (settle2 E (length (inflight c)) (next_delivery2 E (x # xs) c))"
    by (simp add: run2_Cons)
  also have "\<dots> = run2 E (replicate (length xs) (EvSettle2 (length (inflight c2))))
            (next_delivery2 E xs c2)"
    by (simp only: a b)
  also have "\<dots> = c2\<lparr>svc := snd (saveSyncQueue E (drain_loop2 E xs (svc c2)))\<rparr>"
    by (rule Cons.IH)
  also have "\<dots> = c\<lparr>svc := snd (saveSyncQueue E (drain_loop2 E (x # xs) (svc c)))\<rparr>"
    by (simp only: c d)
  finally show ?case .
qed

lemma settle2_idle:
  "run2 E (replicate n (EvSettle2 (length (inflight c)))) c = c"
  by (induction n) (simp_all add: settle2_def run2_Cons run2_Nil)

lemma isolated_drain2:
  "run2 E (replicate (length (syncQueue (svc c))) (EvSettle2 (length (inflight c)))) (begin_drain2 E c)
   = c\<lparr>svc := snd (processSyncQueue2 E (svc c))\<rparr>"
proof (cases "\<not> isOnline (svc c) \<or> length (syncQueue (svc c)) = 0
      \<or> retryAttempts (svc c) \<ge> maxRetries")
  case True
  then show ?thesis
    by (simp add: begin_drain2_def processSyncQueue2_def settle2_idle)
next
  case False
  then show ?thesis
    using next_delivery2_run [of E "syncQueue (svc c)" "c\<lparr>svc := (svc c)\<lparr>syncQueue := []\<rparr>\<rparr>"]
    by (simp add: begin_drain2_def processSyncQueue2_def)
qed

lemma fates_split:
  "length fs = length xs \<Longrightarrow>
   mset (delivered fs xs) + mset (put_back fs xs) = mset xs \<and>
   subseq (delivered fs xs) xs \<and> subseq (put_back fs xs) xs"
proof (induction xs arbitrary: fs)
  case Nil
  then show ?case by simp
next
  case (Cons x xs)
  then obtain b bs where fs: "fs = b # bs" and "length bs = length xs"
    by (cases fs) auto
  with Cons.IH [of bs] show ?case
    by (simp add: list_emb_Cons)
qed

lemma length_fates [simp]: "length (fates E f n xs) = length xs"
  by (induction xs arbitrary: n) (simp_all split: option.splits)

lemma calls_of_delivered:
  "length (calls_of f (delivered (fates E f n xs) xs)) = length (delivered (fates E f n xs) xs)"
  by (induction xs arbitrary: n) (simp_all split: option.splits)

lemma processSyncQueue_exact:
  assumes "isOnline s"
  shows "snd (processSyncQueue E s) =
     (let f = call_of (deviceId s); fl = fates E f (issued s) (syncQueue s);
          s' = s\<lparr>syncQueue := put_back fl (syncQueue s),
                 rtdb := fold apply_call (calls_of f (delivered fl (syncQueue s))) (rtdb s),
                 applied := applied s @ calls_of f (delivered fl (syncQueue s)),
                 issued := issued s + attempts f (syncQueue s)\<rparr>
      in if syncQueue s = [] then s else snd (saveSyncQueue E s'))"
  using assms by (simp add: processSyncQueue_def drain_loop_exact Let_def)

lemma saveSyncQueue_frame:
  "syncQueue (snd (saveSyncQueue E s)) = syncQueue s \<and>
   rtdb (snd (saveSyncQueue E s)) = rtdb s \<and>
   applied (snd (saveSyncQueue E s)) = applied s \<and>
   issued (snd (saveSyncQueue E s)) = issued s \<and>
   retryAttempts (snd (saveSyncQueue E s)) = retryAttempts s"
  by (simp add: saveSyncQueue_def setItem_def)

lemma processSyncQueue2_exact:
  assumes "isOnline s" and "validateAccess s = Inr d" and "retryAttempts s < maxRetries"
  shows "snd (processSyncQueue2 E s) =
     (let f = call_of2 (deviceId s); fl = fates E f (issued s) (syncQueue s);
          s' = s\<lparr>syncQueue := put_back fl (syncQueue s),
                 retryAttempts := retryAttempts s + length (put_back fl (syncQueue s)),
                 rtdb := fold apply_call (calls_of f (delivered fl (syncQueue s))) (rtdb s),
                 applied := applied s @ calls_of f (delivered fl (syncQueue s)),
                 issued := issued s + attempts f (syncQueue s)\<rparr>
      in if syncQueue s = [] then s else snd (saveSyncQueue E s'))"
proof -
  have "validateAccess (s\<lparr>syncQueue := []\<rparr>) = Inr d"
    using assms(2) by (simp add: validateAccess_def)
  then show ?thesis
    using assms drain_loop2_exact [of "s\<lparr>syncQueue := []\<rparr>" d E "syncQueue s"]
    by (simp add: processSyncQueue2_def Let_def)
qed

text \<open>The sample runs.\<close>

lemma call_of_fifo_op1:
  "call_of ''dev-1'' fifo_op1 = Some (RSet ''clients'' \<lparr>eid = ''c1'', eprops = [(''name'', JStr ''A''),
        (''lastModified'', JIso 1), (''syncedBy'', JStr ''dev-1'')]\<rparr>)"
  by (simp add: call_of_def fifo_op1_def valid_path_def valid_key_name_def entity_set_def
      set_prop_def sdk_entity_def Let_def)

lemma call_of_fifo_op2:
  "call_of ''dev-1'' fifo_op2 = Some (RSet ''clients'' \<lparr>eid = ''c1'', eprops = [(''name'', JStr ''B''),
        (''lastModified'', JIso 2), (''syncedBy'', JStr ''dev-1'')]\<rparr>)"
  by (simp add: call_of_def fifo_op2_def valid_path_def valid_key_name_def entity_set_def
      set_prop_def sdk_entity_def Let_def)

lemma call_of2_fifo_op1:
  "call_of2 ''dev-1'' fifo_op1 = Some (RSet ''clients'' \<lparr>eid = ''c1'', eprops = [(''name'', JStr ''A''),
        (''lastModified'', JIso 1), (''syncedBy'', JStr ''dev-1''), (''deviceId'', JStr ''dev-1'')]\<rparr>)"
  by (simp add: call_of2_def fifo_op1_def valid_path_def valid_key_name_def entity_set_def
      set_prop_def sdk_entity_def Let_def)

lemma call_of2_fifo_op2:
  "call_of2 ''dev-1'' fifo_op2 = Some (RSet ''clients'' \<lparr>eid = ''c1'', eprops = [(''name'', JStr ''B''),
        (''lastModified'', JIso 2), (''syncedBy'', JStr ''dev-1''), (''deviceId'', JStr ''dev-1'')]\<rparr>)"
  by (simp add: call_of2_def fifo_op2_def valid_path_def valid_key_name_def entity_set_def
      set_prop_def sdk_entity_def Let_def)



lemma fifo_queued_eval:
  "fifo_queued = idle_service\<lparr>isOnline := False, syncQueue := [fifo_op1, fifo_op2],
     localStorage := [''arkive-device-id'' \<mapsto> Plain ''dev-1'',
       ''arkive-sync-queue'' \<mapsto> queue_text [fifo_op1, fifo_op2]]\<rparr>"
  by (simp add: fifo_queued_def addToSyncQueue_def saveSyncQueue_def setItem_def Let_def
      flaky_def idle_service_def fifo_op1_def fifo_op2_def)

lemma fifo_drained_once_eval:
  "fifo_drained_once = idle_service\<lparr>syncQueue := [fifo_op1],
     localStorage := [''arkive-device-id'' \<mapsto> Plain ''dev-1'',
       ''arkive-sync-queue'' \<mapsto> queue_text [fifo_op1]],
     rtdb := (\<lambda>st. [])(''clients'' := [\<lparr>eid = ''c1'', eprops = [(''name'', JStr ''B''),
        (''lastModified'', JIso 2), (''syncedBy'', JStr ''dev-1'')]\<rparr>]),
     applied := [RSet ''clients'' \<lparr>eid = ''c1'', eprops = [(''name'', JStr ''B''),
        (''lastModified'', JIso 2), (''syncedBy'', JStr ''dev-1'')]\<rparr>],
     issued := 2\<rparr>"
  unfolding fifo_drained_once_def fifo_queued_eval
  by (simp add: on_online_def processSyncQueue_def saveSyncQueue_def setItem_def
      drain_loop_exact call_of_fifo_op1 call_of_fifo_op2 put_node_def
      flaky_def idle_service_def)












text \<open>
  C1 (as amended). The device is online and a drain begins, in either copy of the
  service (in the copy with the counter: while access validates and the counter is
  below \<open>maxRetries\<close>); its calls settle one after the other and no other event is
  handled before it ends. Then every queued operation is either delivered or put back,
  never both; the remote database applies the calls of the delivered ones, one call
  each, in the order in which they were queued, and the queue left behind is the
  operations that failed, in the order in which they were queued. An operation fails
  when no call can be made for it or when the remote rejects its call; the drain goes
  on after a failure.
\<close>

theorem isolated_drain_order:
  assumes "isOnline (svc c)"
  shows "(let q = syncQueue (svc c); f = call_of (deviceId (svc c));
              fl = fates E f (issued (svc c)) q;
              c' = run E (replicate (length q) (EvSettle (length (inflight c)))) (begin_drain E c)
          in syncQueue (svc c') = put_back fl q \<and>
             applied (svc c') = applied (svc c) @ calls_of f (delivered fl q) \<and>
             rtdb (svc c') = fold apply_call (calls_of f (delivered fl q)) (rtdb (svc c)) \<and>
             inflight c' = inflight c \<and>
             length (calls_of f (delivered fl q)) = length (delivered fl q) \<and>
             mset (delivered fl q) + mset (put_back fl q) = mset q \<and>
             subseq (delivered fl q) q \<and> subseq (put_back fl q) q) \<and>
         (validateAccess (svc c) = Inr d \<and> retryAttempts (svc c) < maxRetries \<longrightarrow>
          (let q = syncQueue (svc c); f = call_of2 (deviceId (svc c));
               fl = fates E f (issued (svc c)) q;
               c' = run2 E (replicate (length q) (EvSettle2 (length (inflight c)))) (begin_drain2 E c)
           in syncQueue (svc c') = put_back fl q \<and>
              applied (svc c') = applied (svc c) @ calls_of f (delivered fl q) \<and>
              rtdb (svc c') = fold apply_call (calls_of f (delivered fl q)) (rtdb (svc c)) \<and>
              inflight c' = inflight c \<and>
              length (calls_of f (delivered fl q)) = length (delivered fl q) \<and>
              mset (delivered fl q) + mset (put_back fl q) = mset q \<and>
              subseq (delivered fl q) q \<and> subseq (put_back fl q) q))"
proof -
  have split: "mset (delivered (fates E f n q) q) + mset (put_back (fates E f n q) q) = mset q \<and>
      subseq (delivered (fates E f n q) q) q \<and> subseq (put_back (fates E f n q) q) q"
    for f n and q :: "SyncOperation list"
    by (rule fates_split) simp
  have one: ?thesis if "syncQueue (svc c) = []"
    using that assms
    by (simp add: begin_drain_def begin_drain2_def run_Nil run2_Nil Let_def)
  have two: ?thesis if "syncQueue (svc c) \<noteq> []"
  proof -
    have v1: "snd (processSyncQueue E (svc c)) = snd (saveSyncQueue E
         ((svc c)\<lparr>syncQueue := put_back (fates E (call_of (deviceId (svc c))) (issued (svc c))
                      (syncQueue (svc c))) (syncQueue (svc c)),
            rtdb := fold apply_call (calls_of (call_of (deviceId (svc c)))
                      (delivered (fates E (call_of (deviceId (svc c))) (issued (svc c))
                         (syncQueue (svc c))) (syncQueue (svc c)))) (rtdb (svc c)),
            applied := applied (svc c) @ calls_of (call_of (deviceId (svc c)))
                      (delivered (fates E (call_of (deviceId (svc c))) (issued (svc c))
                         (syncQueue (svc c))) (syncQueue (svc c))),
            issued := issued (svc c) + attempts (call_of (deviceId (svc c))) (syncQueue (svc c))\<rparr>))"
      using processSyncQueue_exact [OF assms, of E] that by (simp add: Let_def)
    have v2: "snd (processSyncQueue2 E (svc c)) = snd (saveSyncQueue E
         ((svc c)\<lparr>syncQueue := put_back (fates E (call_of2 (deviceId (svc c))) (issued (svc c))
                      (syncQueue (svc c))) (syncQueue (svc c)),
            retryAttempts := retryAttempts (svc c) + length (put_back
                      (fates E (call_of2 (deviceId (svc c))) (issued (svc c))
                      (syncQueue (svc c))) (syncQueue (svc c))),
            rtdb := fold apply_call (calls_of (call_of2 (deviceId (svc c)))
                      (delivered (fates E (call_of2 (deviceId (svc c))) (issued (svc c))
                         (syncQueue (svc c))) (syncQueue (svc c)))) (rtdb (svc c)),
            applied := applied (svc c) @ calls_of (call_of2 (deviceId (svc c)))
                      (delivered (fates E (call_of2 (deviceId (svc c))) (issued (svc c))
                         (syncQueue (svc c))) (syncQueue (svc c))),
            issued := issued (svc c) + attempts (call_of2 (deviceId (svc c))) (syncQueue (svc c))\<rparr>))"
      if "validateAccess (svc c) = Inr d" "retryAttempts (svc c) < maxRetries"
      using processSyncQueue2_exact [OF assms that, of E] \<open>syncQueue (svc c) \<noteq> []\<close>
      by (simp add: Let_def)
    show ?thesis
      unfolding Let_def isolated_drain isolated_drain2
      using v1 v2 by (simp add: saveSyncQueue_frame split calls_of_delivered)
  qed
  from one two show ?thesis by blast
qed

theorem isolated_drain_order_witness:
  "isOnline (svc fifo_client) \<and> syncQueue (svc fifo_client) = [fifo_op1, fifo_op2] \<and>
   syncQueue (svc (run flaky [EvSettle 0, EvSettle 0] (begin_drain flaky fifo_client))) = [fifo_op1] \<and>
   applied (svc (run flaky [EvSettle 0, EvSettle 0] (begin_drain flaky fifo_client)))
     = [RSet ''clients'' \<lparr>eid = ''c1'', eprops = [(''name'', JStr ''B''),
          (''lastModified'', JIso 2), (''syncedBy'', JStr ''dev-1'')]\<rparr>] \<and>
   inflight (run flaky [EvSettle 0, EvSettle 0] (begin_drain flaky fifo_client)) = [] \<and>
   syncQueue (svc (run2 flaky [EvSettle2 0, EvSettle2 0] (begin_drain2 flaky fifo_client)))
     = [fifo_op1] \<and>
   applied (svc (run2 flaky [EvSettle2 0, EvSettle2 0] (begin_drain2 flaky fifo_client)))
     = [RSet ''clients'' \<lparr>eid = ''c1'', eprops = [(''name'', JStr ''B''),
          (''lastModified'', JIso 2), (''syncedBy'', JStr ''dev-1''),
          (''deviceId'', JStr ''dev-1'')]\<rparr>]"
  using isolated_drain_order [of fifo_client flaky "Plain ''dev-1''"]
  by (simp add: fifo_client_def idle_service_def validateAccess_def maxRetries_def Let_def
      call_of_fifo_op1 call_of_fifo_op2 call_of2_fifo_op1 call_of2_fifo_op2 flaky_def)

text \<open>The claim as stated fails on \<open>fifo_trace\<close>: the two updates of client \<open>c1\<close> are
  queued in the order A, B; the first call is rejected, so the update queued second
  (name B) is applied remotely before the update queued first (name A), which the next
  drain delivers, and the remote node ends with the older payload.\<close>

theorem fifo_counterexample:
  "syncQueue fifo_queued = [fifo_op1, fifo_op2] \<and>
   applied fifo_trace =
     [RSet ''clients'' \<lparr>eid = ''c1'', eprops = [(''name'', JStr ''B''),
        (''lastModified'', JIso 2), (''syncedBy'', JStr ''dev-1'')]\<rparr>,
      RSet ''clients'' \<lparr>eid = ''c1'', eprops = [(''name'', JStr ''A''),
        (''lastModified'', JIso 1), (''syncedBy'', JStr ''dev-1'')]\<rparr>] \<and>
   rtdb fifo_trace ''clients'' =
     [\<lparr>eid = ''c1'', eprops = [(''name'', JStr ''A''),
        (''lastModified'', JIso 1), (''syncedBy'', JStr ''dev-1'')]\<rparr>] \<and>
   syncQueue fifo_trace = []"
  unfolding fifo_trace_def fifo_drained_once_eval
  by (simp add: fifo_queued_eval processSyncQueue_def saveSyncQueue_def setItem_def
      drain_loop_exact call_of_fifo_op1 put_node_def flaky_def idle_service_def)




section \<open>Properties of the local database\<close>

lemma upgrade_names: "set (map fst (upgrade os)) = set (map fst os) \<union> set storeNames"
  by (auto simp: upgrade_def)

lemma sync_metadata_not_storeName: "''sync_metadata'' \<notin> set storeNames"
  by (simp add: storeNames_def)

lemma map_of_None_names: "k \<notin> set (map fst os) \<Longrightarrow> map_of os k = None"
  by (simp add: map_of_eq_None_iff)

lemma init_fresh: "init fresh_idb = Inr (map (\<lambda>n. (n, [])) storeNames)"
  by (simp add: init_def fresh_idb_def dbVersion_def upgrade_def)

lemma fresh_stores: "dbs fresh_app = Inr (map (\<lambda>n. (n, [])) storeNames)"
  by (simp add: fresh_app_def init_fresh)

lemma fresh_getObjectStore:
  "n \<in> set storeNames \<Longrightarrow> getObjectStore fresh_app n = Inr []"
proof -
  assume "n \<in> set storeNames"
  then have "map_of (map (\<lambda>n. (n, [])) storeNames) n = Some ([] :: entity list)"
    by (simp add: map_of_map_restrict)
  then show ?thesis by (simp add: getObjectStore_def fresh_stores)
qed

text \<open>
  C10. Take any database that holds no object store named \<open>sync_metadata\<close> before
  the service opens it (a new database in particular), and any state of a service
  opened on it: the object stores are those that \<open>init\<close> left, whatever their records,
  or \<open>init\<close> failed. Then \<open>getLastSyncTime\<close> and \<open>updateLastSyncTime\<close> both fail and
  leave the state unchanged: the upgrade handler creates the stores of \<open>storeNames\<close>
  only, and \<open>sync_metadata\<close> is not among them.
\<close>

theorem sync_metadata_missing:
  assumes "''sync_metadata'' \<notin> set (map fst (idb_stores b))" and "opened_from b a"
  shows "(\<exists>e. getLastSyncTime a = (Inl e, a)) \<and> (\<exists>e. updateLastSyncTime now dev a = (Inl e, a))"
proof (cases "dbs a")
  case (Inl e)
  then show ?thesis by (simp add: getLastSyncTime_def updateLastSyncTime_def getObjectStore_def)
next
  case (Inr os)
  with assms(2) obtain os0 where i: "init b = Inr os0" "set (map fst os) = set (map fst os0)"
    by (auto simp: opened_from_def split: sum.splits)
  have "set (map fst os0) \<subseteq> set (map fst (idb_stores b)) \<union> set storeNames"
  proof (cases "idb_version b < dbVersion")
    case True
    with i(1) have "os0 = upgrade (idb_stores b)" by (simp add: init_def split: if_splits)
    then show ?thesis using upgrade_names [of "idb_stores b"] by simp
  next
    case False
    with i(1) have "os0 = idb_stores b" by (simp add: init_def split: if_splits)
    then show ?thesis by auto
  qed
  with assms(1) i(2) have "''sync_metadata'' \<notin> set (map fst os)"
    using sync_metadata_not_storeName by blast
  then have "map_of os ''sync_metadata'' = None" by (rule map_of_None_names)
  with Inr show ?thesis
    by (simp add: getLastSyncTime_def updateLastSyncTime_def getObjectStore_def)
qed

theorem sync_metadata_missing_witness:
  "''sync_metadata'' \<notin> set (map fst (idb_stores fresh_idb)) \<and> opened_from fresh_idb fresh_app \<and>
   getLastSyncTime fresh_app = (Inl NotFoundError, fresh_app) \<and>
   updateLastSyncTime 5 ''dev-1'' fresh_app = (Inl NotFoundError, fresh_app)"
proof -
  have h1: "''sync_metadata'' \<notin> set (map fst (idb_stores fresh_idb))" by (simp add: fresh_idb_def)
  have h2: "opened_from fresh_idb fresh_app"
    by (simp add: opened_from_def fresh_app_def init_fresh)
  have "map_of (map (\<lambda>n. (n, [])) storeNames) ''sync_metadata'' = (None :: entity list option)"
    by (simp add: storeNames_def)
  then have e: "getLastSyncTime fresh_app = (Inl NotFoundError, fresh_app)"
    "updateLastSyncTime 5 ''dev-1'' fresh_app = (Inl NotFoundError, fresh_app)"
    by (simp_all add: getLastSyncTime_def updateLastSyncTime_def getObjectStore_def fresh_app_def init_fresh)
  from sync_metadata_missing [OF h1 h2, of 5 "''dev-1''"] h1 h2 e show ?thesis by simp
qed

lemma dbs_enqueue_and_forget [simp]: "dbs (enqueue_and_forget E ouid now ty st d a) = dbs a"
  by (simp add: enqueue_and_forget_def)

lemma getObjectStore_enqueue [simp]:
  "getObjectStore (enqueue_and_forget E ouid now ty st d a) n = getObjectStore a n"
  by (simp add: getObjectStore_def)

lemma getObjectStore_set_store:
  "getObjectStore a st = Inr rs \<Longrightarrow>
   getObjectStore (set_store st rs' a) n = (if n = st then Inr rs' else getObjectStore a n)"
  by (auto simp: getObjectStore_def set_store_def update_conv' split: sum.splits option.splits)

lemma sync_set_store [simp]: "sync (set_store st rs a) = sync a"
  by (simp add: set_store_def split: sum.splits)

lemma update_record_upsert:
  assumes "getObjectStore a st = Inr rs" and "\<not> index_conflict st u rs"
  shows "fst (update_record E st ouid now u a) = Inr () \<and>
         getObjectStore (snd (update_record E st ouid now u a)) st = Inr (put_node u rs)"
  using assms by (simp add: update_record_def store_put_def Let_def getObjectStore_set_store)

lemma update_functions_unfold:
  "(f, st, extra) \<in> set (update_functions now) \<Longrightarrow>
   f E ouid now r a = update_record E st ouid now (with_props extra r) a"
  by (auto simp: update_functions_def updateUser_def updateClient_def updateReceipt_def
      updateExpense_def updateDocument_def updateEmployee_def updateAttendance_def)

lemma eid_with_props [simp]: "eid (with_props extra r) = eid r"
proof -
  have "\<And>e. eid (fold (\<lambda>kv e. entity_set (fst kv) (snd kv) e) extra e) = eid e"
    by (induction extra) (simp_all add: entity_set_def)
  then show ?thesis by (simp add: with_props_def)
qed

text \<open>
  C3 (as amended). Each of the seven update functions writes with \<open>store.put\<close>: when the
  store opens and no unique index is violated, the call succeeds whether or not the
  record's id is present. If the id is absent the stamped record is inserted at the end
  of the collection; if it is present the stamped record replaces the record with that
  id and the others stay as they are.
\<close>

theorem update_upserts:
  "\<forall>(f, st, extra) \<in> set (update_functions now).
     getObjectStore a st = Inr rs \<longrightarrow> \<not> index_conflict st (with_props extra r) rs \<longrightarrow>
       fst (f E ouid now r a) = Inr () \<and>
       getObjectStore (snd (f E ouid now r a)) st = Inr (put_node (with_props extra r) rs) \<and>
       (eid r \<notin> set (map eid rs) \<longrightarrow> put_node (with_props extra r) rs = rs @ [with_props extra r]) \<and>
       (eid r \<in> set (map eid rs) \<longrightarrow>
          put_node (with_props extra r) rs
            = map (\<lambda>n. if eid n = eid r then with_props extra r else n) rs)"
proof (clarify)
  fix f st extra
  assume m: "(f, st, extra) \<in> set (update_functions now)"
    and s: "getObjectStore a st = Inr rs" and c: "\<not> index_conflict st (with_props extra r) rs"
  have u: "f E ouid now r a = update_record E st ouid now (with_props extra r) a"
    using m by (rule update_functions_unfold)
  show "fst (f E ouid now r a) = Inr () \<and>
       getObjectStore (snd (f E ouid now r a)) st = Inr (put_node (with_props extra r) rs) \<and>
       (eid r \<notin> set (map eid rs) \<longrightarrow> put_node (with_props extra r) rs = rs @ [with_props extra r]) \<and>
       (eid r \<in> set (map eid rs) \<longrightarrow>
          put_node (with_props extra r) rs
            = map (\<lambda>n. if eid n = eid r then with_props extra r else n) rs)"
    unfolding u using update_record_upsert [OF s c, of E ouid now]
    by (simp add: put_node_def)
qed

theorem update_upserts_witness:
  "fst (updateEmployee net_up ''o1'' 5 \<lparr>eid = ''e1'', eprops = [(''name'', JStr ''B'')]\<rparr>
         (one_store_app ''employees'' [\<lparr>eid = ''e1'', eprops = [(''name'', JStr ''A'')]\<rparr>])) = Inr () \<and>
   getObjectStore
     (snd (updateEmployee net_up ''o1'' 5 \<lparr>eid = ''e1'', eprops = [(''name'', JStr ''B'')]\<rparr>
         (one_store_app ''employees'' [\<lparr>eid = ''e1'', eprops = [(''name'', JStr ''A'')]\<rparr>])))
     ''employees''
     = Inr [\<lparr>eid = ''e1'', eprops = [(''name'', JStr ''B''), (''updatedAt'', JDate 5),
              (''lastModified'', JDate 5)]\<rparr>]"
proof -
  have g: "getObjectStore (one_store_app ''employees'' [\<lparr>eid = ''e1'', eprops = [(''name'', JStr ''A'')]\<rparr>])
             ''employees'' = Inr [\<lparr>eid = ''e1'', eprops = [(''name'', JStr ''A'')]\<rparr>]"
    by (simp add: getObjectStore_def one_store_app_def update_conv')
  have m: "(updateEmployee, ''employees'', [(''updatedAt'', JDate 5), (''lastModified'', JDate 5)])
             \<in> set (update_functions 5)"
    by (simp add: update_functions_def)
  have c: "\<not> index_conflict ''employees''
      (with_props [(''updatedAt'', JDate 5), (''lastModified'', JDate 5)]
         \<lparr>eid = ''e1'', eprops = [(''name'', JStr ''B'')]\<rparr>)
      [\<lparr>eid = ''e1'', eprops = [(''name'', JStr ''A'')]\<rparr>]"
    by (simp add: index_conflict_def unique_index_def)
  from update_upserts [of 5 "one_store_app ''employees'' [\<lparr>eid = ''e1'', eprops = [(''name'', JStr ''A'')]\<rparr>]"
      "[\<lparr>eid = ''e1'', eprops = [(''name'', JStr ''A'')]\<rparr>]"
      "\<lparr>eid = ''e1'', eprops = [(''name'', JStr ''B'')]\<rparr>" net_up "''o1''"] m g c
  show ?thesis
    by (auto simp: put_node_def with_props_def entity_set_def set_prop_def)
qed

text \<open>The claim as stated fails: \<open>updateClient\<close> of a record whose id is in no
  collection succeeds, and the record is in the collection afterwards.\<close>

theorem update_absent_counterexample:
  "getObjectStore fresh_app ''clients'' = Inr [] \<and>
   fst (updateClient net_up ''o1'' 5 \<lparr>eid = ''ghost'', eprops = [(''name'', JStr ''A'')]\<rparr> fresh_app)
     = Inr () \<and>
   getObjectStore
     (snd (updateClient net_up ''o1'' 5 \<lparr>eid = ''ghost'', eprops = [(''name'', JStr ''A'')]\<rparr> fresh_app))
     ''clients''
     = Inr [\<lparr>eid = ''ghost'', eprops = [(''name'', JStr ''A''), (''updatedAt'', JDate 5),
              (''lastModified'', JDate 5)]\<rparr>]"
proof -
  have g: "getObjectStore fresh_app ''clients'' = Inr []"
    by (rule fresh_getObjectStore) (simp add: storeNames_def)
  then show ?thesis
    by (simp add: updateClient_def update_record_def Let_def store_put_def index_conflict_def
        unique_index_def put_node_def getObjectStore_set_store with_props_def entity_set_def
        set_prop_def)
qed

lemma create_functions_unfold:
  "(f, st, synced, mk) \<in> set create_functions \<Longrightarrow>
   f E uuid ouid now x a = create_record E st synced ouid now (mk uuid now x) a"
  by (auto simp: create_functions_def createUser_def createClient_def createReceipt_def
      createExpense_def createActivity_def createNotification_def createDocument_def
      createEmployee_def markAttendance_def)

lemma delete_functions_unfold:
  "(f, st) \<in> set delete_functions \<Longrightarrow> f E ouid now i a = delete_record E st ouid now i a"
  by (auto simp: delete_functions_def deleteUser_def deleteClient_def deleteReceipt_def
      deleteExpense_def deleteDocument_def deleteEmployee_def deleteAttendance_def)

lemma create_record_effect:
  assumes "getObjectStore a st = Inr rs"
  shows "fst (create_record E st synced ouid now r a)
           = (case store_add st r rs of Inl e \<Rightarrow> Inl e | Inr rs' \<Rightarrow> Inr r) \<and>
         sync (snd (create_record E st synced ouid now r a))
           = (if synced then snd (addToSyncQueue E ouid now Create st r (sync a)) else sync a)"
  using assms
  by (auto simp: create_record_def Let_def enqueue_and_forget_def split: sum.splits)

lemma update_record_effect:
  assumes "getObjectStore a st = Inr rs"
  shows "fst (update_record E st ouid now r a)
           = (case store_put st r rs of Inl e \<Rightarrow> Inl e | Inr rs' \<Rightarrow> Inr ()) \<and>
         sync (snd (update_record E st ouid now r a))
           = snd (addToSyncQueue E ouid now Update st r (sync a))"
  using assms
  by (auto simp: update_record_def Let_def enqueue_and_forget_def split: sum.splits)

lemma delete_record_effect:
  assumes "getObjectStore a st = Inr rs"
  shows "fst (delete_record E st ouid now i a) = Inr () \<and>
         sync (snd (delete_record E st ouid now i a))
           = snd (addToSyncQueue E ouid now Delete st \<lparr>eid = i, eprops = []\<rparr> (sync a))"
  using assms
  by (auto simp: delete_record_def Let_def enqueue_and_forget_def split: sum.splits)

text \<open>
  C2 (as amended). For the create, update and delete functions of users, clients,
  receipts, expenses, documents, employees and attendance, once the store has opened:
  the sync service ends in the state that \<open>addToSyncQueue\<close> leaves for the corresponding
  operation, and the outcome of the call is that of the store request alone, so an
  error of the enqueue never reaches the caller. \<open>createActivity\<close> and
  \<open>createNotification\<close> leave the sync service as it was.
\<close>

theorem mutations_enqueue:
  "(\<forall>(f, st, synced, mk) \<in> set create_functions.
      getObjectStore a st = Inr rs \<longrightarrow>
        fst (f E uuid ouid now x a)
          = (case store_add st (mk uuid now x) rs of Inl e \<Rightarrow> Inl e | Inr rs' \<Rightarrow> Inr (mk uuid now x)) \<and>
        sync (snd (f E uuid ouid now x a))
          = (if synced then snd (addToSyncQueue E ouid now Create st (mk uuid now x) (sync a))
             else sync a)) \<and>
   (\<forall>(f, st, extra) \<in> set (update_functions now).
      getObjectStore a st = Inr rs \<longrightarrow>
        fst (f E ouid now r a)
          = (case store_put st (with_props extra r) rs of Inl e \<Rightarrow> Inl e | Inr rs' \<Rightarrow> Inr ()) \<and>
        sync (snd (f E ouid now r a))
          = snd (addToSyncQueue E ouid now Update st (with_props extra r) (sync a))) \<and>
   (\<forall>(f, st) \<in> set delete_functions.
      getObjectStore a st = Inr rs \<longrightarrow>
        fst (f E ouid now i a) = Inr () \<and>
        sync (snd (f E ouid now i a))
          = snd (addToSyncQueue E ouid now Delete st \<lparr>eid = i, eprops = []\<rparr> (sync a))) \<and>
   map (\<lambda>(f, st, synced, mk). (st, synced)) create_functions =
     [(''users'', True), (''clients'', True), (''receipts'', True), (''expenses'', True),
      (''activities'', False), (''notifications'', False), (''documents'', True),
      (''employees'', True), (''attendance'', True)]"
proof (intro conjI)
  show "\<forall>(f, st, synced, mk) \<in> set create_functions.
      getObjectStore a st = Inr rs \<longrightarrow>
        fst (f E uuid ouid now x a)
          = (case store_add st (mk uuid now x) rs of Inl e \<Rightarrow> Inl e | Inr rs' \<Rightarrow> Inr (mk uuid now x)) \<and>
        sync (snd (f E uuid ouid now x a))
          = (if synced then snd (addToSyncQueue E ouid now Create st (mk uuid now x) (sync a))
             else sync a)"
  proof (clarify)
    fix f st synced mk
    assume m: "(f, st, synced, mk) \<in> set create_functions" and s: "getObjectStore a st = Inr rs"
    show "fst (f E uuid ouid now x a)
          = (case store_add st (mk uuid now x) rs of Inl e \<Rightarrow> Inl e | Inr rs' \<Rightarrow> Inr (mk uuid now x)) \<and>
        sync (snd (f E uuid ouid now x a))
          = (if synced then snd (addToSyncQueue E ouid now Create st (mk uuid now x) (sync a))
             else sync a)"
      unfolding create_functions_unfold [OF m] by (rule create_record_effect [OF s])
  qed
next
  show "\<forall>(f, st, extra) \<in> set (update_functions now).
      getObjectStore a st = Inr rs \<longrightarrow>
        fst (f E ouid now r a)
          = (case store_put st (with_props extra r) rs of Inl e \<Rightarrow> Inl e | Inr rs' \<Rightarrow> Inr ()) \<and>
        sync (snd (f E ouid now r a))
          = snd (addToSyncQueue E ouid now Update st (with_props extra r) (sync a))"
  proof (clarify)
    fix f st extra
    assume m: "(f, st, extra) \<in> set (update_functions now)" and s: "getObjectStore a st = Inr rs"
    show "fst (f E ouid now r a)
          = (case store_put st (with_props extra r) rs of Inl e \<Rightarrow> Inl e | Inr rs' \<Rightarrow> Inr ()) \<and>
        sync (snd (f E ouid now r a))
          = snd (addToSyncQueue E ouid now Update st (with_props extra r) (sync a))"
      unfolding update_functions_unfold [OF m] by (rule update_record_effect [OF s])
  qed
next
  show "\<forall>(f, st) \<in> set delete_functions.
      getObjectStore a st = Inr rs \<longrightarrow>
        fst (f E ouid now i a) = Inr () \<and>
        sync (snd (f E ouid now i a))
          = snd (addToSyncQueue E ouid now Delete st \<lparr>eid = i, eprops = []\<rparr> (sync a))"
  proof (clarify)
    fix f st
    assume m: "(f, st) \<in> set delete_functions" and s: "getObjectStore a st = Inr rs"
    show "fst (f E ouid now i a) = Inr () \<and>
        sync (snd (f E ouid now i a))
          = snd (addToSyncQueue E ouid now Delete st \<lparr>eid = i, eprops = []\<rparr> (sync a))"
      unfolding delete_functions_unfold [OF m] by (rule delete_record_effect [OF s])
  qed
next
  show "map (\<lambda>(f, st, synced, mk). (st, synced)) create_functions =
     [(''users'', True), (''clients'', True), (''receipts'', True), (''expenses'', True),
      (''activities'', False), (''notifications'', False), (''documents'', True),
      (''employees'', True), (''attendance'', True)]"
    by (simp add: create_functions_def)
qed

theorem mutations_enqueue_witness:
  "fst (createClient net_up ''c1'' ''o1'' 5 [(''cnic'', JStr ''123'')] fresh_app)
     = Inr \<lparr>eid = ''c1'', eprops = [(''cnic'', JStr ''123''), (''createdAt'', JDate 5),
              (''updatedAt'', JDate 5), (''lastModified'', JDate 5)]\<rparr> \<and>
   map op_type (syncQueue (sync (snd
      (createClient net_up ''c1'' ''o1'' 5 [(''cnic'', JStr ''123'')] fresh_app)))) = [Create] \<and>
   fst (deleteClient net_up ''o2'' 6 ''c1'' fresh_app) = Inr () \<and>
   map op_type (syncQueue (sync (snd (deleteClient net_up ''o2'' 6 ''c1'' fresh_app)))) = [Delete]"
proof -
  have g: "getObjectStore fresh_app ''clients'' = Inr []"
    by (rule fresh_getObjectStore) (simp add: storeNames_def)
  have s: "sync fresh_app = idle_service\<lparr>isOnline := False\<rparr>" by (simp add: fresh_app_def)
  from mutations_enqueue [of fresh_app "[]" net_up "''c1''" "''o1''" 5 "[(''cnic'', JStr ''123'')]"]
    mutations_enqueue [of fresh_app "[]" net_up _ "''o2''" 6 _ _ "''c1''"] g
  show ?thesis
    by (simp add: create_functions_def delete_functions_def s addToSyncQueue_def saveSyncQueue_def
        setItem_def Let_def net_up_def idle_service_def store_add_def index_conflict_def
        unique_index_def new_record_def entity_set_def set_prop_def entity_prop_def)
qed

text \<open>The claim as stated fails: \<open>createActivity\<close> and \<open>createNotification\<close> succeed
  against the store and the sync queue stays empty.\<close>

theorem activity_not_enqueued_counterexample:
  "fst (createActivity net_up ''a1'' ''o1'' 5 [(''action'', JStr ''login'')] fresh_app)
     = Inr \<lparr>eid = ''a1'', eprops = [(''action'', JStr ''login'')]\<rparr> \<and>
   getObjectStore (snd (createActivity net_up ''a1'' ''o1'' 5 [(''action'', JStr ''login'')] fresh_app))
     ''activities'' = Inr [\<lparr>eid = ''a1'', eprops = [(''action'', JStr ''login'')]\<rparr>] \<and>
   syncQueue (sync (snd (createActivity net_up ''a1'' ''o1'' 5 [(''action'', JStr ''login'')] fresh_app)))
     = [] \<and>
   fst (createNotification net_up ''n1'' ''o1'' 5 [(''message'', JStr ''hi'')] fresh_app)
     = Inr \<lparr>eid = ''n1'', eprops = [(''message'', JStr ''hi'')]\<rparr> \<and>
   syncQueue (sync (snd (createNotification net_up ''n1'' ''o1'' 5 [(''message'', JStr ''hi'')] fresh_app)))
     = []"
proof -
  have g: "getObjectStore fresh_app ''activities'' = Inr []"
    "getObjectStore fresh_app ''notifications'' = Inr []"
    by (rule fresh_getObjectStore, simp add: storeNames_def)+
  have q: "syncQueue (sync fresh_app) = []" by (simp add: fresh_app_def idle_service_def)
  show ?thesis using g q
    by (simp add: createActivity_def createNotification_def create_record_def Let_def
        store_add_def index_conflict_def unique_index_def new_record_def
        getObjectStore_set_store)
qed

lemma store_add_ok:
  assumes "unique_ok st (rs @ i # items)"
  shows "store_add st i rs = Inr (rs @ [i])"
proof -
  from assms have d: "eid i \<notin> set (map eid rs)" by (auto simp: unique_ok_def)
  have "\<not> index_conflict st i rs"
  proof (cases "unique_index st")
    case None
    then show ?thesis by (simp add: index_conflict_def)
  next
    case (Some k)
    with assms have dk: "distinct (filter valid_key (map (\<lambda>r. entity_prop r k) (rs @ i # items)))"
      by (simp add: unique_ok_def)
    show ?thesis
    proof
      assume "index_conflict st i rs"
      with Some obtain r where r: "valid_key (entity_prop i k)" "r \<in> set rs"
        "entity_prop r k = entity_prop i k"
        by (auto simp: index_conflict_def)
      from r(2) have "entity_prop r k \<in> (\<lambda>r. entity_prop r k) ` set rs" by (rule imageI)
      with r(1,3) have "entity_prop i k \<in> set (filter valid_key (map (\<lambda>r. entity_prop r k) rs))"
        by simp
      with dk r(1) show False by (auto)
    qed
  qed
  with d show ?thesis by (simp add: store_add_def)
qed

lemma add_all_ok: "unique_ok st (rs @ items) \<Longrightarrow> add_all st items rs = Inr (rs @ items)"
proof (induction items arbitrary: rs)
  case Nil
  then show ?case by simp
next
  case (Cons i items)
  have "store_add st i rs = Inr (rs @ [i])" using Cons.prems by (rule store_add_ok)
  moreover have "add_all st items (rs @ [i]) = Inr ((rs @ [i]) @ items)"
    using Cons.prems by (intro Cons.IH) simp
  ultimately show ?case by simp
qed

lemma getStoreFromFirebase_ok:
  assumes "isOnline s" and "remote_ok E (issued s)"
  shows "getStoreFromFirebase E n s = (map rehydrate (rtdb s n), s\<lparr>issued := Suc (issued s)\<rparr>)"
  using assms by (simp add: getStoreFromFirebase_def remote_get_def)

lemma fetch_all_ok:
  assumes "isOnline s" and "\<forall>i < length ns. remote_ok E (issued s + i)"
  shows "fetch_all E ns s
           = (map (\<lambda>n. (n, map rehydrate (rtdb s n))) ns, s\<lparr>issued := issued s + length ns\<rparr>)"
  using assms
proof (induction ns arbitrary: s)
  case Nil
  then show ?case by simp
next
  case (Cons n ns)
  from Cons.prems(2) have r0: "remote_ok E (issued s)" by force
  let ?s = "s\<lparr>issued := Suc (issued s)\<rparr>"
  have g: "getStoreFromFirebase E n s = (map rehydrate (rtdb s n), ?s)"
    using Cons.prems(1) r0 by (rule getStoreFromFirebase_ok)
  have on: "isOnline ?s" using Cons.prems(1) by simp
  have "\<forall>i < length ns. remote_ok E (issued ?s + i)"
  proof (intro allI impI)
    fix i assume "i < length ns"
    then have "Suc i < length (n # ns)" by simp
    with Cons.prems(2) have "remote_ok E (issued s + Suc i)" by blast
    then show "remote_ok E (issued ?s + i)" by simp
  qed
  with on have "fetch_all E ns ?s
      = (map (\<lambda>n. (n, map rehydrate (rtdb ?s n))) ns, ?s\<lparr>issued := issued ?s + length ns\<rparr>)"
    by (rule Cons.IH)
  with g show ?case by simp
qed

lemma set_store_Inr: "dbs a = Inr os \<Longrightarrow> set_store st rs a = a\<lparr>dbs := Inr (AList.update st rs os)\<rparr>"
  by (simp add: set_store_def)

lemma clear_all_ok:
  assumes "dbs a = Inr os" and "set ns \<subseteq> set (map fst os)"
  shows "\<exists>os'. clear_all ns a = (Inr (), a\<lparr>dbs := Inr os'\<rparr>) \<and>
               set (map fst os') = set (map fst os) \<and>
               (\<forall>n. map_of os' n = (if n \<in> set ns then Some [] else map_of os n))"
  using assms
proof (induction ns arbitrary: a os)
  case Nil
  then have "clear_all [] a = (Inr (), a\<lparr>dbs := Inr os\<rparr>)" by simp
  then show ?case by auto
next
  case (Cons n ns)
  from Cons.prems obtain rs where rs: "map_of os n = Some rs"
    by (cases "map_of os n") (auto simp: map_of_eq_None_iff)
  let ?os = "AList.update n [] os"
  let ?a = "a\<lparr>dbs := Inr ?os\<rparr>"
  have c: "clearStore n a = (Inr (), ?a)"
    using Cons.prems(1) rs by (simp add: clearStore_def getObjectStore_def set_store_Inr)
  have names: "set (map fst ?os) = set (map fst os)"
    using rs by (auto simp: dom_update dest: map_of_SomeD intro: rev_image_eqI)
  have "dbs ?a = Inr ?os" by simp
  moreover have "set ns \<subseteq> set (map fst ?os)" using Cons.prems(2) names by simp
  ultimately obtain os' where IH: "clear_all ns ?a = (Inr (), ?a\<lparr>dbs := Inr os'\<rparr>)"
      "set (map fst os') = set (map fst ?os)"
      "\<forall>m. map_of os' m = (if m \<in> set ns then Some [] else map_of ?os m)"
    using Cons.IH [of ?a ?os] by blast
  have "clear_all (n # ns) a = (Inr (), a\<lparr>dbs := Inr os'\<rparr>)" using c IH(1) by simp
  moreover have "set (map fst os') = set (map fst os)" using IH(2) names by simp
  moreover have "\<forall>m. map_of os' m = (if m \<in> set (n # ns) then Some [] else map_of os m)"
    using IH(3) by (simp add: update_conv')
  ultimately show ?case by blast
qed

lemma imp_ok:
  assumes "dbs a = Inr os" and "map_of os n = Some []" and "unique_ok n items"
  shows "imp n items a = (Inr (), a\<lparr>dbs := Inr (AList.update n items os)\<rparr>)"
  using assms add_all_ok [of n "[]" items]
  by (simp add: imp_def getObjectStore_def set_store_Inr)

lemma imp_all_ok:
  assumes "dbs a = Inr os" and "distinct (map fst fs)"
    and "\<forall>(n, items) \<in> set fs. map_of os n = Some [] \<and> unique_ok n items"
  shows "\<exists>os'. imp_all fs a = (Inr (), a\<lparr>dbs := Inr os'\<rparr>) \<and>
               (\<forall>n. map_of os' n = (case map_of fs n of Some items \<Rightarrow> Some items | None \<Rightarrow> map_of os n))"
  using assms
proof (induction fs arbitrary: a os)
  case Nil
  then have "imp_all [] a = (Inr (), a\<lparr>dbs := Inr os\<rparr>)" by simp
  then show ?case by auto
next
  case (Cons p fs)
  obtain n items where p: "p = (n, items)" by (cases p)
  let ?os = "AList.update n items os"
  let ?a = "a\<lparr>dbs := Inr ?os\<rparr>"
  from Cons.prems(3) p have h: "map_of os n = Some []" "unique_ok n items" by auto
  have i: "imp n items a = (Inr (), ?a)" using Cons.prems(1) h by (rule imp_ok)
  have nfs: "n \<notin> set (map fst fs)" using Cons.prems(2) p by simp
  have "dbs ?a = Inr ?os" by simp
  moreover have "distinct (map fst fs)" using Cons.prems(2) by simp
  moreover have "\<forall>(m, its) \<in> set fs. map_of ?os m = Some [] \<and> unique_ok m its"
  proof (clarify)
    fix m its assume mi: "(m, its) \<in> set fs"
    with nfs have "m \<noteq> n" by force
    moreover from mi Cons.prems(3) have "map_of os m = Some [] \<and> unique_ok m its" by auto
    ultimately show "map_of ?os m = Some [] \<and> unique_ok m its" by (simp add: update_conv')
  qed
  ultimately obtain os' where IH: "imp_all fs ?a = (Inr (), ?a\<lparr>dbs := Inr os'\<rparr>)"
    "\<forall>m. map_of os' m = (case map_of fs m of Some its \<Rightarrow> Some its | None \<Rightarrow> map_of ?os m)"
    using Cons.IH [of ?a ?os] by blast
  have "imp_all (p # fs) a = (Inr (), a\<lparr>dbs := Inr os'\<rparr>)" using p i IH(1) by simp
  moreover have "\<forall>m. map_of os' m
      = (case map_of (p # fs) m of Some its \<Rightarrow> Some its | None \<Rightarrow> map_of os m)"
  proof
    fix m
    show "map_of os' m = (case map_of (p # fs) m of Some its \<Rightarrow> Some its | None \<Rightarrow> map_of os m)"
    proof (cases "m = n")
      case True
      with nfs have "map_of fs m = None" by (simp add: map_of_eq_None_iff)
      with IH(2) True p show ?thesis by (simp add: update_conv')
    next
      case False
      with IH(2) p show ?thesis by (simp add: update_conv' split: option.splits)
    qed
  qed
  ultimately show ?case by blast
qed

lemma distinct_storeNames: "distinct storeNames"
  by (simp add: storeNames_def)

lemma map_of_fetched:
  "n \<in> set ns \<Longrightarrow> map_of (map (\<lambda>n. (n, f n)) ns) n = Some (f n)"
  by (induction ns) auto

lemma dbs_sync_update [simp]: "dbs (a\<lparr>sync := s\<rparr>) = dbs a"
  by simp

text \<open>
  C5 (as amended). Let the nine object stores exist, the service be online, the nine
  remote reads succeed, and let what is read for each collection have distinct ids and
  respect the collection's unique index. Then \<open>syncFromFirebase\<close> completes and every
  local collection holds exactly the records read for it, in the form the one-shot
  read returns them; no earlier local record remains.
\<close>

theorem resync_replaces_local:
  assumes "dbs a = Inr os" and "set storeNames \<subseteq> set (map fst os)"
    and "isOnline (sync a)" and "\<forall>i < length storeNames. remote_ok E (issued (sync a) + i)"
    and "\<forall>st \<in> set storeNames. unique_ok st (map rehydrate (rtdb (sync a) st))"
  shows "fst (syncFromFirebase E a) = Inr () \<and>
         (\<forall>st \<in> set storeNames.
            getObjectStore (snd (syncFromFirebase E a)) st
              = Inr (map rehydrate (rtdb (sync a) st)))"
proof -
  let ?fs = "map (\<lambda>n. (n, map rehydrate (rtdb (sync a) n))) storeNames"
  let ?s = "(sync a)\<lparr>issued := issued (sync a) + length storeNames\<rparr>"
  let ?a = "a\<lparr>sync := ?s\<rparr>"
  have f: "fetch_all E storeNames (sync a) = (?fs, ?s)"
    using assms(3,4) by (rule fetch_all_ok)
  have "dbs ?a = Inr os" using assms(1) by simp
  then obtain os1 where c: "clear_all storeNames ?a = (Inr (), ?a\<lparr>dbs := Inr os1\<rparr>)"
    and c2: "\<forall>n. map_of os1 n = (if n \<in> set storeNames then Some [] else map_of os n)"
    using clear_all_ok [of ?a os storeNames] assms(2) by blast
  let ?a1 = "?a\<lparr>dbs := Inr os1\<rparr>"
  have "dbs ?a1 = Inr os1" by simp
  moreover have "distinct (map fst ?fs)" using distinct_storeNames by (simp add: comp_def)
  moreover have "\<forall>(n, items) \<in> set ?fs. map_of os1 n = Some [] \<and> unique_ok n items"
    using c2 assms(5) by auto
  ultimately obtain os2 where i: "imp_all ?fs ?a1 = (Inr (), ?a1\<lparr>dbs := Inr os2\<rparr>)"
    and i2: "\<forall>n. map_of os2 n = (case map_of ?fs n of Some items \<Rightarrow> Some items | None \<Rightarrow> map_of os1 n)"
    using imp_all_ok [of ?a1 os1 ?fs] by blast
  have r: "syncFromFirebase E a = (Inr (), ?a1\<lparr>dbs := Inr os2\<rparr>)"
    using f c i by (simp add: syncFromFirebase_def)
  have "\<forall>st \<in> set storeNames. map_of os2 st = Some (map rehydrate (rtdb (sync a) st))"
  proof
    fix st assume "st \<in> set storeNames"
    then have "map_of ?fs st = Some (map rehydrate (rtdb (sync a) st))" by (rule map_of_fetched)
    with i2 show "map_of os2 st = Some (map rehydrate (rtdb (sync a) st))" by simp
  qed
  with r show ?thesis by (simp add: getObjectStore_def)
qed

lemmas resync_defs = syncFromFirebase_def getStoreFromFirebase_def remote_get_def clearStore_def
  getObjectStore_def set_store_def imp_def store_add_def index_conflict_def unique_index_def
  rehydrate_def rehydrated_names_def entity_set_def entity_prop_def set_prop_def get_prop_def
  storeNames_def

lemma rehydrate_client:
  "rehydrate \<lparr>eid = i, eprops = [(''cnic'', JStr c)]\<rparr> =
     \<lparr>eid = i, eprops = [(''cnic'', JStr c), (''createdAt'', JInvalidDate),
        (''updatedAt'', JUndefined), (''lastModified'', JUndefined), (''date'', JUndefined),
        (''timestamp'', JUndefined), (''uploadedAt'', JUndefined), (''lastAccessed'', JUndefined),
        (''lastLogin'', JUndefined)]\<rparr>"
  by (simp add: rehydrate_def rehydrated_names_def entity_set_def entity_prop_def set_prop_def
      get_prop_def)

text \<open>The claim as stated fails in two ways. With two remote clients that share a
  \<open>cnic\<close>, the second \<open>add\<close> violates the unique index, the import transaction is
  aborted, \<open>syncFromFirebase\<close> still completes and the local collection is empty.
  Offline, the reads return nothing, \<open>syncFromFirebase\<close> completes and the local
  collection is empty although the remote collection has two records.\<close>

theorem resync_counterexample:
  "length (rtdb (sync (resync_app ''123'' ''123'')) ''clients'') = 2 \<and>
   fst (syncFromFirebase net_up (resync_app ''123'' ''123'')) = Inr () \<and>
   getObjectStore (snd (syncFromFirebase net_up (resync_app ''123'' ''123''))) ''clients'' = Inr [] \<and>
   length (rtdb (sync (resync_app ''111'' ''222'')) ''clients'') = 2 \<and>
   fst (syncFromFirebase net_up
          ((resync_app ''111'' ''222'')\<lparr>sync := (remote_two_clients ''111'' ''222'')\<lparr>isOnline := False\<rparr>\<rparr>))
     = Inr () \<and>
   getObjectStore (snd (syncFromFirebase net_up
          ((resync_app ''111'' ''222'')\<lparr>sync := (remote_two_clients ''111'' ''222'')\<lparr>isOnline := False\<rparr>\<rparr>)))
      ''clients'' = Inr []"
  by (simp add: resync_defs resync_app_def remote_two_clients_def net_up_def idle_service_def)

theorem resync_replaces_local_witness:
  "getObjectStore (resync_app ''111'' ''222'') ''clients''
     = Inr [\<lparr>eid = ''local'', eprops = [(''cnic'', JStr ''999'')]\<rparr>] \<and>
   fst (syncFromFirebase net_up (resync_app ''111'' ''222'')) = Inr () \<and>
   getObjectStore (snd (syncFromFirebase net_up (resync_app ''111'' ''222''))) ''clients''
     = Inr (map rehydrate [\<lparr>eid = ''c1'', eprops = [(''cnic'', JStr ''111'')]\<rparr>,
                           \<lparr>eid = ''c2'', eprops = [(''cnic'', JStr ''222'')]\<rparr>])"
proof -
  let ?os = "AList.update ''clients'' [\<lparr>eid = ''local'', eprops = [(''cnic'', JStr ''999'')]\<rparr>]
              (map (\<lambda>n. (n, [])) storeNames)"
  have h1: "dbs (resync_app ''111'' ''222'') = Inr ?os" by (simp add: resync_app_def)
  have h2: "set storeNames \<subseteq> set (map fst ?os)" by (simp add: storeNames_def)
  have h3: "isOnline (sync (resync_app ''111'' ''222''))"
    by (simp add: resync_app_def remote_two_clients_def idle_service_def)
  have h4: "\<forall>i < length storeNames. remote_ok net_up (issued (sync (resync_app ''111'' ''222'')) + i)"
    by (simp add: net_up_def)
  have h5: "\<forall>st \<in> set storeNames.
      unique_ok st (map rehydrate (rtdb (sync (resync_app ''111'' ''222'')) st))"
    by (simp add: storeNames_def resync_app_def remote_two_clients_def unique_ok_def
        unique_index_def rehydrate_client entity_prop_def get_prop_def)
  have g: "getObjectStore (resync_app ''111'' ''222'') ''clients''
     = Inr [\<lparr>eid = ''local'', eprops = [(''cnic'', JStr ''999'')]\<rparr>]"
    by (simp add: getObjectStore_def resync_app_def update_conv')
  from resync_replaces_local [OF h1 h2 h3 h4 h5] g show ?thesis
    by (simp add: storeNames_def resync_app_def remote_two_clients_def)
qed

section \<open>Properties of the remote round trip\<close>

lemma get_prop_set_prop: "get_prop (set_prop k' v ps) k = (if k = k' then v else get_prop ps k)"
  by (simp add: get_prop_def set_prop_def update_conv')

lemma entity_prop_entity_set:
  "entity_prop (entity_set k' v e) k = (if k = k' \<and> k \<noteq> ''id'' then v else entity_prop e k)"
  by (simp add: entity_prop_def entity_set_def get_prop_set_prop)

lemma eid_entity_set [simp]: "eid (entity_set k v e) = eid e"
  by (simp add: entity_set_def)

lemma eid_sdk_entity [simp]: "eid (sdk_entity e) = eid e"
  by (simp add: sdk_entity_def)

lemma eid_rehydrate [simp]: "eid (rehydrate e) = eid e"
  by (simp add: rehydrate_def rehydrated_names_def)












lemma live_listener_converts_joinDate:
  "entity_prop item ''joinDate'' = JIso t \<Longrightarrow>
   entity_prop (rehydrate_live item) ''joinDate'' = JDate t \<and>
   entity_prop (rehydrate item) ''joinDate'' = JIso t"
  by (simp add: rehydrate_live_def rehydrate_def rehydrated_names_def entity_prop_entity_set)









end
